theory Spec2Isabelle
  imports Main "HOL-Library.AList" "HOL-Library.Sublist"
begin

section \<open>The file system the script runs against\<close>

text \<open>
  \<^verbatim>\<open>move_files.py\<close> is a loop around two library calls, \<^verbatim>\<open>os.path.join\<close> and
  \<^verbatim>\<open>shutil.move\<close>, and an entry point that calls \<^verbatim>\<open>os.listdir\<close>, \<^verbatim>\<open>os.makedirs\<close>
  and the loop.  Everything the script does is an effect on the file system, so the file
  system is the state of the model: a finite table from canonical paths (the list of
  component names below the root) to nodes, a regular file with its content or a
  directory.  A path string is resolved against this table component by component, as
  the kernel does, from the root or from the working directory of the process.

  The library functions are embedded from their CPython 3.11 sources
  (\<^verbatim>\<open>posixpath.py\<close>, \<^verbatim>\<open>os.py\<close>, \<^verbatim>\<open>shutil.py\<close>); the system calls below them
  (\<^verbatim>\<open>stat\<close>, \<^verbatim>\<open>mkdir\<close>, \<^verbatim>\<open>rename\<close>, \<^verbatim>\<open>open\<close>, \<^verbatim>\<open>unlink\<close>, \<^verbatim>\<open>rmdir\<close>) follow
  POSIX as Linux implements it.  The file system of the model has one device, compares
  names byte by byte, and has no symbolic or hard links, no special files and no
  permissions or file flags: every directory can be read and written, so the branches
  of the library for links, for a rename across devices and for
  \<^verbatim>\<open>PermissionError\<close> have no counterpart.  Metadata (times, modes) is not part of a
  node.

  \<^verbatim>\<open>shutil.move\<close> starts with \<^verbatim>\<open>sys.audit("shutil.move", src, dst)\<close>; the field
  \<open>audit\<close> records these events, which is how the model observes which moves were
  attempted and in which order.
\<close>

datatype node = File string | Dir

text \<open>
  The exceptions the calls raise, by their Python classes.  \<open>OSError\<close> stands for an
  \<^verbatim>\<open>OSError\<close> of none of the four subclasses before it (the kernel's EINVAL, EBUSY and
  ENOTEMPTY), \<open>ShutilError\<close> for \<^verbatim>\<open>shutil.Error\<close> and \<open>SameFileError\<close> for
  \<^verbatim>\<open>shutil.SameFileError\<close>.
\<close>

datatype error =
    FileNotFoundError
  | NotADirectoryError
  | IsADirectoryError
  | FileExistsError
  | OSError
  | ShutilError
  | SameFileError

type_synonym fpath = "string list"

record world =
  fs :: "(fpath \<times> node) list"
  cwd :: fpath
  audit :: "(string \<times> string) list"

abbreviation sep :: char where
  "sep \<equiv> CHR ''/''"

text \<open>
  Reading and updating the table: the node at a path; whether a directory has an entry;
  writing and removing one node; moving the tree at \<open>sp\<close> to \<open>dp\<close>; copying what is
  below \<open>sp\<close> in \<open>w0\<close> to below \<open>dp\<close>; removing what is below \<open>sp\<close>.
\<close>

definition lookup :: "world \<Rightarrow> fpath \<Rightarrow> node option" where
  "lookup w p = map_of (fs w) p"

definition has_child :: "world \<Rightarrow> fpath \<Rightarrow> bool" where
  "has_child w d = list_ex (\<lambda>(k, v). strict_prefix d k) (fs w)"

definition put :: "fpath \<Rightarrow> node \<Rightarrow> world \<Rightarrow> world" where
  "put p v w = w\<lparr>fs := AList.update p v (fs w)\<rparr>"

definition remove_node :: "fpath \<Rightarrow> world \<Rightarrow> world" where
  "remove_node p w = w\<lparr>fs := AList.delete p (fs w)\<rparr>"

definition move_subtree :: "fpath \<Rightarrow> fpath \<Rightarrow> world \<Rightarrow> world" where
  "move_subtree sp dp w =
     w\<lparr>fs := [(dp @ drop (length sp) k, v). (k, v) \<leftarrow> fs w, prefix sp k]
              @ [(k, v) \<leftarrow> fs w. \<not> prefix sp k \<and> \<not> prefix dp k]\<rparr>"

definition copy_children :: "world \<Rightarrow> fpath \<Rightarrow> fpath \<Rightarrow> world \<Rightarrow> world" where
  "copy_children w0 sp dp w =
     w\<lparr>fs := [(dp @ drop (length sp) k, v). (k, v) \<leftarrow> fs w0, strict_prefix sp k] @ fs w\<rparr>"

definition remove_children :: "fpath \<Rightarrow> world \<Rightarrow> world" where
  "remove_children sp w = w\<lparr>fs := [(k, v) \<leftarrow> fs w. \<not> strict_prefix sp k]\<rparr>"

subsection \<open>Path strings (\<^verbatim>\<open>posixpath\<close>)\<close>

text \<open>
  \<^verbatim>\<open>str.split('/')\<close>: the pieces between separators, empty pieces included.  The
  split of the rest is never empty, so the first case of the inner \<open>case\<close> is never
  taken.
\<close>

fun splitsep :: "string \<Rightarrow> string list" where
  "splitsep [] = [[]]"
| "splitsep (c # cs) =
     (if c = sep then [] # splitsep cs
      else (case splitsep cs of
              [] \<Rightarrow> [[c]]
            | x # xs \<Rightarrow> (c # x) # xs))"

definition rstrip_sep :: "string \<Rightarrow> string" where
  "rstrip_sep p = rev (dropWhile (\<lambda>c. c = sep) (rev p))"

text \<open>\<^verbatim>\<open>p[i:]\<close> and \<^verbatim>\<open>p[:i]\<close> for \<^verbatim>\<open>i = p.rfind('/') + 1\<close>.\<close>

definition basename :: "string \<Rightarrow> string" where
  "basename p = rev (takeWhile (\<lambda>c. c \<noteq> sep) (rev p))"

definition dirpart :: "string \<Rightarrow> string" where
  "dirpart p = rev (dropWhile (\<lambda>c. c \<noteq> sep) (rev p))"

definition os_path_split :: "string \<Rightarrow> string \<times> string" where
  "os_path_split p =
     (if dirpart p \<noteq> [] \<and> \<not> list_all (\<lambda>c. c = sep) (dirpart p)
      then (rstrip_sep (dirpart p), basename p)
      else (dirpart p, basename p))"

text \<open>\<^verbatim>\<open>shutil._basename\<close>: the last component, trailing separators ignored.\<close>

definition basename_strip :: "string \<Rightarrow> string" where
  "basename_strip p = basename (rstrip_sep p)"

text \<open>
  \<^verbatim>\<open>os.path.join(a, b)\<close>:
  \<^verbatim>\<open>if b.startswith(sep): path = b
  elif not path or path.endswith(sep): path += b
  else: path += sep + b\<close>
\<close>

definition os_path_join :: "string \<Rightarrow> string \<Rightarrow> string" where
  "os_path_join a b =
     (if b \<noteq> [] \<and> hd b = sep then b
      else if a = [] \<or> last a = sep then a @ b
      else a @ sep # b)"

definition isabs :: "string \<Rightarrow> bool" where
  "isabs p = (p \<noteq> [] \<and> hd p = sep)"

subsection \<open>Path resolution\<close>

text \<open>
  One step of a walk: an empty component and \<^verbatim>\<open>.\<close> stay, \<^verbatim>\<open>..\<close> goes to the parent
  (the root is its own parent), a name goes down.
\<close>

definition step :: "fpath \<Rightarrow> string \<Rightarrow> fpath" where
  "step cur c =
     (if c = [] \<or> c = ''.'' then cur
      else if c = ''..'' then butlast cur
      else cur @ [c])"

text \<open>
  The walk looks every non-empty component up in the directory reached so far, which
  must exist (else ENOENT) and be a directory (else ENOTDIR).  The node the last
  component names need not exist.
\<close>

fun walk :: "world \<Rightarrow> fpath \<Rightarrow> string list \<Rightarrow> error + fpath" where
  "walk w cur [] = Inr cur"
| "walk w cur (c # cs) =
     (if c = [] then walk w cur cs
      else (case lookup w cur of
              None \<Rightarrow> Inl FileNotFoundError
            | Some (File x) \<Rightarrow> Inl NotADirectoryError
            | Some Dir \<Rightarrow> walk w (step cur c) cs))"

definition resolve :: "world \<Rightarrow> string \<Rightarrow> error + fpath" where
  "resolve w p =
     (if p = [] then Inl FileNotFoundError
      else walk w (if isabs p then [] else cwd w) (splitsep p))"

text \<open>A path with a trailing separator can only name a directory.\<close>

definition must_dir :: "string \<Rightarrow> bool" where
  "must_dir p = (p \<noteq> [] \<and> last p = sep)"

text \<open>The last component is empty (the path is the root), \<^verbatim>\<open>.\<close> or \<^verbatim>\<open>..\<close>.\<close>

definition dot_last :: "string \<Rightarrow> bool" where
  "dot_last p = (basename_strip p = [] \<or> basename_strip p = ''.'' \<or> basename_strip p = ''..'')"

subsection \<open>System calls\<close>

definition os_stat :: "world \<Rightarrow> string \<Rightarrow> error + node" where
  "os_stat w p =
     (case resolve w p of
        Inl e \<Rightarrow> Inl e
      | Inr c \<Rightarrow>
          (case lookup w c of
             None \<Rightarrow> Inl FileNotFoundError
           | Some Dir \<Rightarrow> Inr Dir
           | Some (File x) \<Rightarrow>
               if must_dir p then Inl NotADirectoryError else Inr (File x)))"

text \<open>\<^verbatim>\<open>os.path.exists\<close>, \<^verbatim>\<open>isdir\<close> and \<^verbatim>\<open>isfile\<close> answer False when \<^verbatim>\<open>stat\<close> fails.\<close>

definition os_path_exists :: "world \<Rightarrow> string \<Rightarrow> bool" where
  "os_path_exists w p = (case os_stat w p of Inl e \<Rightarrow> False | Inr n \<Rightarrow> True)"

definition os_path_isdir :: "world \<Rightarrow> string \<Rightarrow> bool" where
  "os_path_isdir w p = (os_stat w p = Inr Dir)"

definition os_path_isfile :: "world \<Rightarrow> string \<Rightarrow> bool" where
  "os_path_isfile w p = (case os_stat w p of Inr (File x) \<Rightarrow> True | _ \<Rightarrow> False)"

text \<open>
  \<^verbatim>\<open>shutil._samefile\<close>: \<^verbatim>\<open>os.path.samefile\<close> with every \<^verbatim>\<open>OSError\<close> turned into
  False.  Without links two paths name the same file when they resolve to the same node.
\<close>

definition samefile :: "world \<Rightarrow> string \<Rightarrow> string \<Rightarrow> bool" where
  "samefile w a b =
     (case (os_stat w a, os_stat w b) of
        (Inr x, Inr y) \<Rightarrow> resolve w a = resolve w b
      | _ \<Rightarrow> False)"

definition os_mkdir :: "string \<Rightarrow> world \<Rightarrow> (error + unit) \<times> world" where
  "os_mkdir p w =
     (case resolve w p of
        Inl e \<Rightarrow> (Inl e, w)
      | Inr c \<Rightarrow>
          (case lookup w c of
             None \<Rightarrow> (Inr (), put c Dir w)
           | Some n \<Rightarrow> (Inl FileExistsError, w)))"

text \<open>
  \<^verbatim>\<open>rename(2)\<close>.  A regular file replaces an existing regular file; a directory
  replaces an existing empty directory; renaming a node to itself does nothing; a
  directory cannot move below itself.
\<close>

definition os_rename :: "string \<Rightarrow> string \<Rightarrow> world \<Rightarrow> (error + unit) \<times> world" where
  "os_rename src dst w =
     (case resolve w src of
        Inl e \<Rightarrow> (Inl e, w)
      | Inr sp \<Rightarrow>
          (case lookup w sp of
             None \<Rightarrow> (Inl FileNotFoundError, w)
           | Some n \<Rightarrow>
               (case resolve w dst of
                  Inl e \<Rightarrow> (Inl e, w)
                | Inr dp \<Rightarrow>
                    if dot_last src \<or> dot_last dst then (Inl OSError, w)
                    else
                      (case n of
                         File c \<Rightarrow>
                           if must_dir src \<or> must_dir dst then (Inl NotADirectoryError, w)
                           else if lookup w dp = Some Dir then (Inl IsADirectoryError, w)
                           else if sp = dp then (Inr (), w)
                           else (Inr (), put dp (File c) (remove_node sp w))
                       | Dir \<Rightarrow>
                           if sp = dp then (Inr (), w)
                           else if prefix sp dp then (Inl OSError, w)
                           else
                             (case lookup w dp of
                                Some (File c) \<Rightarrow> (Inl NotADirectoryError, w)
                              | Some Dir \<Rightarrow>
                                  if has_child w dp then (Inl OSError, w)
                                  else (Inr (), move_subtree sp dp w)
                              | None \<Rightarrow> (Inr (), move_subtree sp dp w))))))"

definition os_unlink :: "string \<Rightarrow> world \<Rightarrow> (error + unit) \<times> world" where
  "os_unlink p w =
     (case resolve w p of
        Inl e \<Rightarrow> (Inl e, w)
      | Inr c \<Rightarrow>
          (case lookup w c of
             None \<Rightarrow> (Inl FileNotFoundError, w)
           | Some Dir \<Rightarrow> (Inl IsADirectoryError, w)
           | Some (File x) \<Rightarrow>
               if must_dir p then (Inl NotADirectoryError, w)
               else (Inr (), remove_node c w)))"

text \<open>\<^verbatim>\<open>open(p, 'rb').read()\<close> and \<^verbatim>\<open>open(p, 'wb').write(c)\<close>.\<close>

definition open_read :: "world \<Rightarrow> string \<Rightarrow> error + string" where
  "open_read w p =
     (case resolve w p of
        Inl e \<Rightarrow> Inl e
      | Inr c \<Rightarrow>
          (case lookup w c of
             None \<Rightarrow> Inl FileNotFoundError
           | Some Dir \<Rightarrow> Inl IsADirectoryError
           | Some (File x) \<Rightarrow> if must_dir p then Inl NotADirectoryError else Inr x))"

definition open_write :: "string \<Rightarrow> string \<Rightarrow> world \<Rightarrow> (error + unit) \<times> world" where
  "open_write p x w =
     (case resolve w p of
        Inl e \<Rightarrow> (Inl e, w)
      | Inr c \<Rightarrow>
          (case lookup w c of
             Some Dir \<Rightarrow> (Inl IsADirectoryError, w)
           | Some (File y) \<Rightarrow>
               if must_dir p then (Inl NotADirectoryError, w) else (Inr (), put c (File x) w)
           | None \<Rightarrow>
               if must_dir p then (Inl IsADirectoryError, w) else (Inr (), put c (File x) w)))"

text \<open>
  \<^verbatim>\<open>os.listdir\<close>: the names in a directory.  Python promises no order; the model
  lists them in table order.
\<close>

definition os_listdir :: "string \<Rightarrow> world \<Rightarrow> error + string list" where
  "os_listdir p w =
     (case resolve w p of
        Inl e \<Rightarrow> Inl e
      | Inr d \<Rightarrow>
          (case lookup w d of
             None \<Rightarrow> Inl FileNotFoundError
           | Some (File x) \<Rightarrow> Inl NotADirectoryError
           | Some Dir \<Rightarrow>
               Inr (remdups [last k. (k, v) \<leftarrow> fs w, k \<noteq> [] \<and> butlast k = d])))"

subsection \<open>\<^verbatim>\<open>os.makedirs\<close>\<close>

text \<open>
  \<^verbatim>\<open>head, tail = path.split(name)
  if not tail:
      head, tail = path.split(head)\<close>
\<close>

definition makedirs_split :: "string \<Rightarrow> string \<times> string" where
  "makedirs_split name =
     (if snd (os_path_split name) = [] then os_path_split (fst (os_path_split name))
      else os_path_split name)"

text \<open>
  \<^verbatim>\<open>try:
      mkdir(name, mode)
  except OSError:
      if not exist_ok or not path.isdir(name):
          raise\<close>
\<close>

definition makedirs_leaf :: "string \<Rightarrow> bool \<Rightarrow> world \<Rightarrow> (error + unit) \<times> world" where
  "makedirs_leaf name exist_ok w =
     (case os_mkdir name w of
        (Inl e, w1) \<Rightarrow>
          if \<not> exist_ok \<or> \<not> os_path_isdir w1 name then (Inl e, w1) else (Inr (), w1)
      | (Inr u, w1) \<Rightarrow> (Inr (), w1))"

lemma length_rstrip_sep: "length (rstrip_sep p) \<le> length p"
  using length_dropWhile_le [of "\<lambda>c. c = sep" "rev p"] by (simp add: rstrip_sep_def)

lemma dirpart_basename: "dirpart p @ basename p = p"
proof -
  have "rev (takeWhile (\<lambda>c. c \<noteq> sep) (rev p) @ dropWhile (\<lambda>c. c \<noteq> sep) (rev p)) = p"
    by simp
  then show ?thesis
    unfolding dirpart_def basename_def by (simp only: rev_append)
qed

lemma length_split:
  "length (fst (os_path_split p)) + length (snd (os_path_split p)) \<le> length p"
proof -
  have "length (dirpart p) + length (basename p) = length p"
    using dirpart_basename [of p] by (metis length_append)
  moreover have "length (rstrip_sep (dirpart p)) \<le> length (dirpart p)"
    by (rule length_rstrip_sep)
  ultimately show ?thesis
    by (simp add: os_path_split_def)
qed

lemma split_shorter:
  assumes "snd (os_path_split p) \<noteq> []"
  shows "length (fst (os_path_split p)) < length p"
proof -
  have "0 < length (snd (os_path_split p))"
    using assms by simp
  then show ?thesis
    using length_split [of p] by linarith
qed

lemma makedirs_split_shorter:
  assumes "snd (makedirs_split name) \<noteq> []"
  shows "length (fst (makedirs_split name)) < length name"
proof (cases "snd (os_path_split name) = []")
  case True
  have "length (fst (os_path_split name)) \<le> length name"
    using length_split [of name] by simp
  moreover have "length (fst (makedirs_split name)) < length (fst (os_path_split name))"
    using assms True split_shorter [of "fst (os_path_split name)"]
    by (simp add: makedirs_split_def)
  ultimately show ?thesis by simp
next
  case False
  then show ?thesis
    using split_shorter [of name] by (simp add: makedirs_split_def)
qed

text \<open>
  \<^verbatim>\<open>if head and tail and not path.exists(head):
      try:
          makedirs(head, exist_ok=exist_ok)
      except FileExistsError:
          pass
      if tail == curdir:
          return
  ... mkdir(name, mode) ...\<close>
  The recursion is on a strictly shorter string.
\<close>

function os_makedirs :: "string \<Rightarrow> bool \<Rightarrow> world \<Rightarrow> (error + unit) \<times> world" where
  "os_makedirs name exist_ok w =
     (if fst (makedirs_split name) \<noteq> [] \<and> snd (makedirs_split name) \<noteq> []
         \<and> \<not> os_path_exists w (fst (makedirs_split name))
      then
        (case os_makedirs (fst (makedirs_split name)) exist_ok w of
           (Inl e, w1) \<Rightarrow>
             if e = FileExistsError then
               (if snd (makedirs_split name) = ''.'' then (Inr (), w1)
                else makedirs_leaf name exist_ok w1)
             else (Inl e, w1)
         | (Inr u, w1) \<Rightarrow>
             if snd (makedirs_split name) = ''.'' then (Inr (), w1)
             else makedirs_leaf name exist_ok w1)
      else makedirs_leaf name exist_ok w)"
  by pat_completeness auto
termination
  by (relation "measure (\<lambda>(name, exist_ok, w). length name)")
     (auto simp: makedirs_split_shorter)

declare os_makedirs.simps [simp del]

subsection \<open>\<^verbatim>\<open>shutil.move\<close> and what it calls\<close>

text \<open>
  \<^verbatim>\<open>shutil.copyfile\<close>: refuses to copy a file onto itself, reads the source, then
  writes the destination; an \<^verbatim>\<open>IsADirectoryError\<close> from opening a destination that does
  not exist is raised as \<^verbatim>\<open>FileNotFoundError\<close>.
\<close>

definition copyfile :: "string \<Rightarrow> string \<Rightarrow> world \<Rightarrow> (error + unit) \<times> world" where
  "copyfile src dst w =
     (if samefile w src dst then (Inl SameFileError, w)
      else
        (case open_read w src of
           Inl e \<Rightarrow> (Inl e, w)
         | Inr x \<Rightarrow>
             (case open_write dst x w of
                (Inl e, w1) \<Rightarrow>
                  if e = IsADirectoryError \<and> \<not> os_path_exists w dst
                  then (Inl FileNotFoundError, w1) else (Inl e, w1)
              | (Inr u, w1) \<Rightarrow> (Inr (), w1))))"

text \<open>\<^verbatim>\<open>shutil.copy2\<close>; the metadata that \<^verbatim>\<open>copystat\<close> copies is not part of the model.\<close>

definition copy2 :: "string \<Rightarrow> string \<Rightarrow> world \<Rightarrow> (error + unit) \<times> world" where
  "copy2 src dst w =
     copyfile src (if os_path_isdir w dst then os_path_join dst (basename src) else dst) w"

text \<open>
  \<^verbatim>\<open>shutil.copytree\<close>: scan the source directory, create the destination with
  \<^verbatim>\<open>os.makedirs(dst)\<close> (parents included, an existing destination is an error), copy
  everything below the source.  The copy is of the tree as it was when the call began.
  \<^verbatim>\<open>shutil.move\<close> calls it for a destination outside the source tree; only when
  \<^verbatim>\<open>_destinsrc\<close> is misled by a leading \<^verbatim>\<open>//\<close> can the destination lie inside, and
  if it then lies below an existing subdirectory of the source, the library's recursion
  copies its own output until the interpreter stops it, which the model does not follow.
\<close>

definition copytree :: "string \<Rightarrow> string \<Rightarrow> world \<Rightarrow> (error + unit) \<times> world" where
  "copytree src dst w =
     (case os_stat w src of
        Inl e \<Rightarrow> (Inl e, w)
      | Inr (File x) \<Rightarrow> (Inl NotADirectoryError, w)
      | Inr Dir \<Rightarrow>
          (case os_makedirs dst False w of
             (Inl e, w1) \<Rightarrow> (Inl e, w1)
           | (Inr u, w1) \<Rightarrow>
               (case (resolve w src, resolve w1 dst) of
                  (Inr sp, Inr dp) \<Rightarrow> (Inr (), copy_children w sp dp w1)
                | _ \<Rightarrow> (Inl OSError, w1))))"

text \<open>
  \<^verbatim>\<open>shutil.rmtree\<close>: delete what is below the directory, then \<^verbatim>\<open>rmdir\<close> the
  directory, which the kernel refuses for the root, \<^verbatim>\<open>.\<close> and \<^verbatim>\<open>..\<close>.
\<close>

definition rmtree :: "string \<Rightarrow> world \<Rightarrow> (error + unit) \<times> world" where
  "rmtree src w =
     (case os_stat w src of
        Inl e \<Rightarrow> (Inl e, w)
      | Inr (File x) \<Rightarrow> (Inl NotADirectoryError, w)
      | Inr Dir \<Rightarrow>
          (case resolve w src of
             Inl e \<Rightarrow> (Inl e, w)
           | Inr sp \<Rightarrow>
               if dot_last src then (Inl OSError, remove_children sp w)
               else (Inr (), remove_node sp (remove_children sp w))))"

text \<open>
  \<^verbatim>\<open>os.path.abspath\<close> as the number of leading separators that \<^verbatim>\<open>normpath\<close> keeps
  (two when the path starts with exactly two, else one) and the normalised components;
  \<^verbatim>\<open>shutil._destinsrc\<close> asks whether \<^verbatim>\<open>abspath(dst) + '/'\<close> starts with
  \<^verbatim>\<open>abspath(src) + '/'\<close>.
\<close>

definition lead_slashes :: "string \<Rightarrow> nat" where
  "lead_slashes p = (if take 2 p = ''//'' \<and> take 3 p \<noteq> ''///'' then 2 else 1)"

definition abspath :: "world \<Rightarrow> string \<Rightarrow> nat \<times> fpath" where
  "abspath w p =
     (if isabs p then (lead_slashes p, foldl step [] (splitsep p))
      else (1, foldl step (cwd w) (splitsep p)))"

definition destinsrc :: "world \<Rightarrow> string \<Rightarrow> string \<Rightarrow> bool" where
  "destinsrc w src dst =
     (if fst (abspath w src) = fst (abspath w dst)
      then prefix (snd (abspath w src)) (snd (abspath w dst))
      else fst (abspath w src) = 1 \<and> snd (abspath w src) = [])"

text \<open>
  The handler of \<^verbatim>\<open>shutil.move\<close> for a failed rename (no symbolic links here):
  \<^verbatim>\<open>elif os.path.isdir(src):
      if _destinsrc(src, dst): raise Error(...)
      copytree(src, real_dst, ...); rmtree(src)
  else:
      copy_function(src, real_dst); os.unlink(src)\<close>
\<close>

definition move_fallback :: "string \<Rightarrow> string \<Rightarrow> string \<Rightarrow> world \<Rightarrow> (error + unit) \<times> world" where
  "move_fallback src dst real_dst w =
     (if os_path_isdir w src then
        (if destinsrc w src dst then (Inl ShutilError, w)
         else
           (case copytree src real_dst w of
              (Inl e, w1) \<Rightarrow> (Inl e, w1)
            | (Inr u, w1) \<Rightarrow> rmtree src w1))
      else
        (case copy2 src real_dst w of
           (Inl e, w1) \<Rightarrow> (Inl e, w1)
         | (Inr u, w1) \<Rightarrow> os_unlink src w1))"

text \<open>\<^verbatim>\<open>try: os.rename(src, real_dst)  except OSError: ...\<close>\<close>

definition move_to :: "string \<Rightarrow> string \<Rightarrow> string \<Rightarrow> world \<Rightarrow> (error + unit) \<times> world" where
  "move_to src dst real_dst w =
     (case os_rename src real_dst w of
        (Inl e, w1) \<Rightarrow> move_fallback src dst real_dst w1
      | (Inr u, w1) \<Rightarrow> (Inr (), w1))"

text \<open>
  \<^verbatim>\<open>def move(src, dst, copy_function=copy2):
      sys.audit("shutil.move", src, dst)
      real_dst = dst
      if os.path.isdir(dst):
          if _samefile(src, dst) and not os.path.islink(src):
              os.rename(src, dst)
              return
          real_dst = os.path.join(dst, _basename(src))
          if os.path.exists(real_dst):
              raise Error("Destination path '%s' already exists" % real_dst)
      try:
          os.rename(src, real_dst)
      except OSError:
          ...
      return real_dst\<close>
  The caller ignores the returned path, and the model does not return it.
\<close>

definition shutil_move :: "string \<Rightarrow> string \<Rightarrow> world \<Rightarrow> (error + unit) \<times> world" where
  "shutil_move src dst w0 =
     (let w = w0\<lparr>audit := audit w0 @ [(src, dst)]\<rparr> in
      if os_path_isdir w dst then
        (if samefile w src dst then os_rename src dst w
         else if os_path_exists w (os_path_join dst (basename_strip src))
         then (Inl ShutilError, w)
         else move_to src dst (os_path_join dst (basename_strip src)) w)
      else move_to src dst dst w)"

section \<open>The script\<close>

text \<open>
  \<^verbatim>\<open>def move_files(file_list, source_folder, destination_folder):
    for file_name in file_list:
      source_path = os.path.join(source_folder, file_name)
      destination_path = os.path.join(destination_folder, file_name)
      shutil.move(source_path, destination_path)\<close>
  An exception of \<^verbatim>\<open>shutil.move\<close> is not caught: it ends the loop and is the outcome
  of the call.  The file system reached by then is returned with the outcome, since it
  is what the next process sees.  \<open>Inr ()\<close> is Python's \<^verbatim>\<open>None\<close>.
\<close>

fun move_files :: "string list \<Rightarrow> string \<Rightarrow> string \<Rightarrow> world \<Rightarrow> (error + unit) \<times> world" where
  "move_files [] source_folder destination_folder w = (Inr (), w)"
| "move_files (file_name # file_list) source_folder destination_folder w =
     (let source_path = os_path_join source_folder file_name;
          destination_path = os_path_join destination_folder file_name
      in case shutil_move source_path destination_path w of
           (Inl e, w1) \<Rightarrow> (Inl e, w1)
         | (Inr u, w1) \<Rightarrow> move_files file_list source_folder destination_folder w1)"

text \<open>
  The entry point, from \<^verbatim>\<open>os.makedirs(destination_folder, exist_ok=True)\<close> on, with the
  file list and the two folders as parameters:
  \<^verbatim>\<open>os.makedirs(destination_folder, exist_ok=True)
  move_files(file_list, source_folder, destination_folder)\<close>
\<close>

definition main_with :: "string list \<Rightarrow> string \<Rightarrow> string \<Rightarrow> world \<Rightarrow> (error + unit) \<times> world" where
  "main_with file_list source_folder destination_folder w =
     (case os_makedirs destination_folder True w of
        (Inl e, w1) \<Rightarrow> (Inl e, w1)
      | (Inr u, w1) \<Rightarrow> move_files file_list source_folder destination_folder w1)"

text \<open>The three paths the entry point hard-codes, and the entry point itself.\<close>

definition listed_folder :: string where
  "listed_folder = ''/Users/blakeli/code/protobuf-poc-split/protobuf-api/src/main/java/com/google/api/''"

definition source_folder :: string where
  "source_folder = ''/Users/blakeli/code/protobuf-poc-split-keep-package/src/main/java/com/google/protobuf/''"

definition destination_folder :: string where
  "destination_folder = ''/Users/blakeli/code/protobuf-poc-split-keep-package/protobuf-api/src/main/java/com/google/protobuf/''"

definition main :: "world \<Rightarrow> (error + unit) \<times> world" where
  "main w =
     (case os_listdir listed_folder w of
        Inl e \<Rightarrow> (Inl e, w)
      | Inr file_list \<Rightarrow> main_with file_list source_folder destination_folder w)"

section \<open>Vocabulary of the claims\<close>

text \<open>
  A plain name is what \<^verbatim>\<open>os.listdir\<close> returns, which is where the entry point takes its
  file list from: the name of one directory entry, so not empty, without a separator, and
  neither \<^verbatim>\<open>.\<close> nor \<^verbatim>\<open>..\<close>.
\<close>

definition plain :: "string \<Rightarrow> bool" where
  "plain n = (n \<noteq> [] \<and> sep \<notin> set n \<and> n \<noteq> ''.'' \<and> n \<noteq> ''..'')"

text \<open>
  The listed file \<open>n\<close> has been moved from folder \<open>S\<close> to folder \<open>D\<close> between the
  file systems \<open>w\<close> and \<open>w'\<close>: \<open>D/n\<close> is a regular file with the content \<open>S/n\<close> had,
  and \<open>S/n\<close> does not exist.
\<close>

definition moved :: "world \<Rightarrow> world \<Rightarrow> string \<Rightarrow> string \<Rightarrow> string \<Rightarrow> bool" where
  "moved w w' S D n \<longleftrightarrow>
     os_path_isfile w' (os_path_join D n)
     \<and> os_stat w' (os_path_join D n) = os_stat w (os_path_join S n)
     \<and> \<not> os_path_exists w' (os_path_join S n)"


text \<open>Example file systems.\<close>

definition ex_two :: world where
  "ex_two = \<lparr>fs = [([], Dir), ([''src''], Dir), ([''dst''], Dir),
                    ([''src'', ''a.txt''], File ''A''), ([''src'', ''b.txt''], File ''B'')],
             cwd = [], audit = []\<rparr>"



text \<open>Between \<open>w\<close> and \<open>w'\<close> no move was logged and the working directory stayed.\<close>

definition keeps :: "world \<Rightarrow> world \<Rightarrow> bool" where
  "keeps w w' \<longleftrightarrow> audit w' = audit w \<and> cwd w' = cwd w"

text \<open>
  Every component of every path of the table is a plain name, as in a file system that
  \<^verbatim>\<open>mkdir\<close> and \<^verbatim>\<open>open\<close> have built.
\<close>

definition plain_names :: "world \<Rightarrow> bool" where
  "plain_names w \<longleftrightarrow> list_all (\<lambda>(k, v). list_all plain k) (fs w)"

text \<open>
  Between \<open>w\<close> and \<open>w'\<close> only regular files have changed, and only at the canonical
  paths in \<open>A\<close>: every other path holds what it held, and where something changed
  there was no directory before and there is none after.
\<close>

definition file_change :: "world \<Rightarrow> world \<Rightarrow> fpath set \<Rightarrow> bool" where
  "file_change w w' A \<longleftrightarrow>
     cwd w' = cwd w
     \<and> (\<forall>q. lookup w' q = lookup w q
              \<or> (q \<in> A \<and> lookup w q \<noteq> Some Dir \<and> lookup w' q \<noteq> Some Dir))"

text \<open>
  Between \<open>w\<close> and \<open>w'\<close> nothing but new directories: every path that held a node
  holds it still, and a path that held none holds none or a directory.
\<close>

definition new_dirs_only :: "world \<Rightarrow> world \<Rightarrow> bool" where
  "new_dirs_only w w' \<longleftrightarrow>
     cwd w' = cwd w \<and> audit w' = audit w
     \<and> (\<forall>q. lookup w' q = lookup w q \<or> (lookup w q = None \<and> lookup w' q = Some Dir))"

definition ex_no_dst :: world where
  "ex_no_dst = \<lparr>fs = [([], Dir), ([''src''], Dir), ([''src'', ''a.txt''], File ''A'')],
                cwd = [], audit = []\<rparr>"



definition ex_file_in_way :: world where
  "ex_file_in_way = \<lparr>fs = [([], Dir), ([''src''], Dir), ([''f''], File ''F'')],
                     cwd = [], audit = []\<rparr>"

definition ex_dir_at_dst :: world where
  "ex_dir_at_dst = \<lparr>fs = [([], Dir), ([''src''], Dir), ([''dst''], Dir),
                           ([''src'', ''a.txt''], File ''A''), ([''dst'', ''a.txt''], Dir)],
                    cwd = [], audit = []\<rparr>"

definition ex_traversal :: world where
  "ex_traversal = \<lparr>fs = [([], Dir), ([''s''], Dir), ([''p''], Dir), ([''p'', ''p''], Dir)],
                   cwd = [], audit = []\<rparr>"

section \<open>Lemmas\<close>

lemma lookup_put [simp]: "lookup (put p v w) q = (if q = p then Some v else lookup w q)"
  by (simp add: lookup_def put_def update_conv')

lemma lookup_remove_node [simp]:
  "lookup (remove_node p w) q = (if q = p then None else lookup w q)"
  by (simp add: lookup_def remove_node_def delete_conv')

lemma cwd_put [simp]: "cwd (put p v w) = cwd w"
  by (simp add: put_def)

lemma cwd_remove_node [simp]: "cwd (remove_node p w) = cwd w"
  by (simp add: remove_node_def)

lemma audit_put [simp]: "audit (put p v w) = audit w"
  by (simp add: put_def)

lemma audit_remove_node [simp]: "audit (remove_node p w) = audit w"
  by (simp add: remove_node_def)

lemma lookup_audit_update [simp]: "lookup (w\<lparr>audit := a\<rparr>) = lookup w"
  by (rule ext) (simp add: lookup_def)

lemma walk_append:
  "walk w cur (xs @ ys) = (case walk w cur xs of Inl e \<Rightarrow> Inl e | Inr c \<Rightarrow> walk w c ys)"
  by (induction xs arbitrary: cur) (auto split: option.splits node.splits)

lemma walk_mono:
  assumes "\<And>q. lookup w q = Some Dir \<Longrightarrow> lookup w' q = Some Dir"
  shows "walk w cur cs = Inr c \<Longrightarrow> walk w' cur cs = Inr c"
proof (induction cs arbitrary: cur)
  case Nil
  then show ?case by simp
next
  case (Cons a cs)
  show ?case
  proof (cases "a = []")
    case True
    with Cons show ?thesis by simp
  next
    case False
    with Cons.prems have d: "lookup w cur = Some Dir" and r: "walk w (step cur a) cs = Inr c"
      by (auto split: option.splits node.splits)
    from d assms have "lookup w' cur = Some Dir" by simp
    with False Cons.IH [OF r] show ?thesis by simp
  qed
qed

lemma resolve_mono:
  assumes "\<And>q. lookup w q = Some Dir \<Longrightarrow> lookup w' q = Some Dir" "cwd w' = cwd w"
    and "resolve w p = Inr c"
  shows "resolve w' p = Inr c"
  using assms(2,3) walk_mono [of w w', OF assms(1)]
  by (auto simp: resolve_def split: if_splits)

lemma splitsep_not_Nil [simp]: "splitsep p \<noteq> []"
  by (cases p) (auto split: list.splits)

lemma splitsep_append_sep: "splitsep (a @ sep # b) = splitsep a @ splitsep b"
  by (induction a) (auto split: list.splits)

lemma splitsep_nosep: "sep \<notin> set n \<Longrightarrow> splitsep n = [n]"
  by (induction n) auto

lemma splitsep_snoc_sep: "splitsep (a @ [sep]) = splitsep a @ [[]]"
  using splitsep_append_sep [of a "[]"] by simp

lemma walk_single:
  "c \<noteq> [] \<Longrightarrow> walk w cur [c] =
     (case lookup w cur of None \<Rightarrow> Inl FileNotFoundError
      | Some (File x) \<Rightarrow> Inl NotADirectoryError | Some Dir \<Rightarrow> Inr (step cur c))"
  by (simp split: option.splits node.splits)

lemma step_plain: "plain n \<Longrightarrow> step cur n = cur @ [n]"
  by (simp add: plain_def step_def)

lemma join_plain:
  "plain n \<Longrightarrow> S \<noteq> [] \<Longrightarrow>
     os_path_join S n = (if last S = sep then S @ n else S @ sep # n)"
  by (cases n) (auto simp: os_path_join_def plain_def)

lemma splitsep_join_plain:
  assumes "plain n" "S \<noteq> []"
  shows "\<exists>cs. splitsep (os_path_join S n) = cs @ [n] \<and> (\<forall>cur. walk w cur cs = walk w cur (splitsep S))"
proof (cases "last S = sep")
  case True
  then obtain S' where S: "S = S' @ [sep]"
    using assms(2) by (metis append_butlast_last_id)
  have "splitsep (os_path_join S n) = splitsep S' @ [n]"
    using assms S by (simp add: join_plain splitsep_append_sep splitsep_nosep plain_def)
  moreover have "\<forall>cur. walk w cur (splitsep S') = walk w cur (splitsep S)"
    by (auto simp: S splitsep_snoc_sep walk_append split: sum.splits)
  ultimately show ?thesis by blast
next
  case False
  then have "splitsep (os_path_join S n) = splitsep S @ [n]"
    using assms by (simp add: join_plain splitsep_append_sep splitsep_nosep plain_def)
  then show ?thesis by blast
qed

lemma isabs_join_plain: "plain n \<Longrightarrow> S \<noteq> [] \<Longrightarrow> isabs (os_path_join S n) = isabs S"
  by (cases S) (auto simp: join_plain isabs_def)

lemma resolve_join_plain:
  assumes "plain n" "S \<noteq> []"
  shows "resolve w (os_path_join S n) =
     (case resolve w S of
        Inl e \<Rightarrow> Inl e
      | Inr s \<Rightarrow>
          (case lookup w s of
             None \<Rightarrow> Inl FileNotFoundError
           | Some (File x) \<Rightarrow> Inl NotADirectoryError
           | Some Dir \<Rightarrow> Inr (s @ [n])))"
proof -
  obtain cs where cs: "splitsep (os_path_join S n) = cs @ [n]"
    and wk: "\<And>cur. walk w cur cs = walk w cur (splitsep S)"
    using splitsep_join_plain [OF assms, of w] by blast
  have ne: "os_path_join S n \<noteq> []"
    using assms by (auto simp: join_plain)
  have n: "n \<noteq> []" using assms(1) by (simp add: plain_def)
  have 1: "resolve w (os_path_join S n) =
      (case resolve w S of Inl e \<Rightarrow> Inl e | Inr s \<Rightarrow> walk w s [n])"
    using assms ne by (simp add: resolve_def cs walk_append wk isabs_join_plain)
  have 2: "walk w s [n] =
      (case lookup w s of None \<Rightarrow> Inl FileNotFoundError
       | Some (File x) \<Rightarrow> Inl NotADirectoryError | Some Dir \<Rightarrow> Inr (s @ [n]))" for s
    using n step_plain [OF assms(1)] by (simp split: option.splits node.splits)
  show ?thesis
    unfolding 1 2 by simp
qed

lemma join_plain_ex:
  assumes "plain n" "S \<noteq> []"
  shows "\<exists>P. os_path_join S n = P @ sep # n"
proof (cases "last S = sep")
  case True
  then have "S = butlast S @ [sep]"
    using assms(2) by (metis append_butlast_last_id)
  then have "os_path_join S n = butlast S @ sep # n"
    using assms True by (metis join_plain append.assoc append_Cons append_Nil)
  then show ?thesis by blast
next
  case False
  then show ?thesis using assms by (simp add: join_plain)
qed

lemma basename_join_plain:
  assumes "plain n" "S \<noteq> []"
  shows "basename (os_path_join S n) = n"
proof -
  have "sep \<notin> set m \<Longrightarrow> takeWhile (\<lambda>c. c \<noteq> sep) (m @ sep # xs) = m" for m xs
    by (induction m) auto
  then have "takeWhile (\<lambda>c. c \<noteq> sep) (rev n @ sep # xs) = rev n" for xs
    using assms(1) by (simp add: plain_def)
  moreover obtain P where "os_path_join S n = P @ sep # n"
    using join_plain_ex [OF assms] by blast
  ultimately show ?thesis
    by (simp add: basename_def)
qed

lemma last_join_plain: "plain n \<Longrightarrow> S \<noteq> [] \<Longrightarrow> last (os_path_join S n) = last n"
  by (auto simp: join_plain plain_def)

lemma last_plain: "plain n \<Longrightarrow> last n \<noteq> sep"
  by (metis last_in_set plain_def)

lemma must_dir_join_plain: "plain n \<Longrightarrow> S \<noteq> [] \<Longrightarrow> \<not> must_dir (os_path_join S n)"
  using last_join_plain [of n S] last_plain [of n] by (auto simp: must_dir_def)

lemma rstrip_join_plain:
  assumes "plain n" "S \<noteq> []"
  shows "rstrip_sep (os_path_join S n) = os_path_join S n"
proof -
  have "last (os_path_join S n) \<noteq> sep"
    using last_join_plain [OF assms] last_plain [OF assms(1)] by simp
  moreover have "os_path_join S n \<noteq> []" using assms by (auto simp: join_plain)
  ultimately have "dropWhile (\<lambda>c. c = sep) (rev (os_path_join S n)) = rev (os_path_join S n)"
    by (cases "os_path_join S n" rule: rev_cases) auto
  then show ?thesis by (simp add: rstrip_sep_def)
qed

lemma basename_strip_join_plain:
  "plain n \<Longrightarrow> S \<noteq> [] \<Longrightarrow> basename_strip (os_path_join S n) = n"
  by (simp add: basename_strip_def rstrip_join_plain basename_join_plain)

lemma dot_last_join_plain: "plain n \<Longrightarrow> S \<noteq> [] \<Longrightarrow> \<not> dot_last (os_path_join S n)"
  by (simp add: dot_last_def basename_strip_join_plain) (simp add: plain_def)


lemma cwd_audit_update [simp]: "cwd (w\<lparr>audit := a\<rparr>) = cwd w"
  by simp

lemma walk_audit [simp]: "walk (w\<lparr>audit := a\<rparr>) cur cs = walk w cur cs"
  by (induction cs arbitrary: cur) (auto split: option.splits node.splits)



lemma resolve_audit [simp]: "resolve (w\<lparr>audit := a\<rparr>) p = resolve w p"
  by (simp add: resolve_def)

lemma os_stat_audit [simp]: "os_stat (w\<lparr>audit := a\<rparr>) p = os_stat w p"
  by (simp add: os_stat_def split: sum.splits)

lemma isdir_audit [simp]: "os_path_isdir (w\<lparr>audit := a\<rparr>) p = os_path_isdir w p"
  by (simp add: os_path_isdir_def)

lemma exists_audit [simp]: "os_path_exists (w\<lparr>audit := a\<rparr>) p = os_path_exists w p"
  by (simp add: os_path_exists_def)

lemma isdir_iff:
  "os_path_isdir w p \<longleftrightarrow> (\<exists>c. resolve w p = Inr c \<and> lookup w c = Some Dir)"
  by (auto simp: os_path_isdir_def os_stat_def split: sum.splits option.splits node.splits)

lemma stat_fail_samefile: "os_stat w a = Inl e \<Longrightarrow> \<not> samefile w a b"
  by (simp add: samefile_def)


lemma stat_fail_read: "os_stat w p = Inl e \<Longrightarrow> open_read w p = Inl e"
  by (auto simp: os_stat_def open_read_def split: sum.splits option.splits node.splits if_splits)

lemma stat_fail_rename: "os_stat w src = Inl e \<Longrightarrow> \<exists>e'. os_rename src dst w = (Inl e', w)"
  by (auto simp: os_stat_def os_rename_def split: sum.splits option.splits node.splits if_splits)

lemma stat_fail_isdir: "os_stat w p = Inl e \<Longrightarrow> \<not> os_path_isdir w p"
  by (simp add: os_path_isdir_def)

text \<open>A source that does not exist.\<close>

lemma copy2_missing:
  assumes "os_stat w src = Inl e"
  shows "copy2 src dst w = (Inl e, w)"
  using stat_fail_samefile [OF assms] stat_fail_read [OF assms]
  by (simp add: copy2_def copyfile_def)

lemma move_to_missing:
  assumes "os_stat w src = Inl e"
  shows "move_to src dst real_dst w = (Inl e, w)"
proof -
  obtain e' where "os_rename src real_dst w = (Inl e', w)"
    using stat_fail_rename [OF assms] by blast
  then show ?thesis
    using stat_fail_isdir [OF assms] copy2_missing [OF assms]
    by (simp add: move_to_def move_fallback_def)
qed

lemma move_missing:
  assumes "os_stat w src = Inl e"
    and "\<not> (os_path_isdir w dst \<and> os_path_exists w (os_path_join dst (basename_strip src)))"
  shows "shutil_move src dst w = (Inl e, w\<lparr>audit := audit w @ [(src, dst)]\<rparr>)"
proof -
  let ?w = "w\<lparr>audit := audit w @ [(src, dst)]\<rparr>"
  have s: "os_stat ?w src = Inl e" using assms(1) by simp
  show ?thesis
    using assms(2) stat_fail_samefile [OF s] move_to_missing [OF s]
    by (simp add: shutil_move_def Let_def)
qed

text \<open>A regular file moved onto a path that is free or holds a regular file.\<close>

lemma rename_file:
  assumes "resolve w src = Inr sp" "lookup w sp = Some (File x)" "\<not> must_dir src" "\<not> dot_last src"
    and "resolve w dst = Inr dp" "lookup w dp \<noteq> Some Dir" "\<not> must_dir dst" "\<not> dot_last dst"
    and "sp \<noteq> dp"
  shows "os_rename src dst w = (Inr (), put dp (File x) (remove_node sp w))"
  using assms by (simp add: os_rename_def)

lemma move_file:
  assumes "resolve w src = Inr sp" "lookup w sp = Some (File x)" "\<not> must_dir src" "\<not> dot_last src"
    and "resolve w dst = Inr dp" "lookup w dp \<noteq> Some Dir" "\<not> must_dir dst" "\<not> dot_last dst"
    and "sp \<noteq> dp"
  shows "shutil_move src dst w =
           (Inr (), put dp (File x) (remove_node sp (w\<lparr>audit := audit w @ [(src, dst)]\<rparr>)))"
proof -
  let ?w = "w\<lparr>audit := audit w @ [(src, dst)]\<rparr>"
  have "\<not> os_path_isdir ?w dst"
    using assms(5,6) by (simp add: isdir_iff)
  moreover have "os_rename src dst ?w = (Inr (), put dp (File x) (remove_node sp ?w))"
    using assms by (intro rename_file) simp_all
  ultimately show ?thesis
    by (simp add: shutil_move_def Let_def move_to_def)
qed



lemma move_files_append:
  "move_files (xs @ ys) S D w =
     (case move_files xs S D w of
        (Inl e, w1) \<Rightarrow> (Inl e, w1)
      | (Inr u, w1) \<Rightarrow> move_files ys S D w1)"
  by (induction xs arbitrary: w) (auto simp: Let_def split: prod.splits sum.splits)

lemma resolve_not_empty: "resolve w p = Inr c \<Longrightarrow> p \<noteq> []"
  by (auto simp: resolve_def)

lemma resolve_join_dir:
  assumes "resolve w S = Inr s" "lookup w s = Some Dir" "plain n"
  shows "resolve w (os_path_join S n) = Inr (s @ [n])"
  using assms resolve_join_plain [OF assms(3) resolve_not_empty [OF assms(1)], of w] by simp

lemma move_plain_file:
  assumes "resolve w S = Inr s" "lookup w s = Some Dir"
    and "resolve w D = Inr d" "lookup w d = Some Dir"
    and "s \<noteq> d" "plain n"
    and "lookup w (s @ [n]) = Some (File x)" "lookup w (d @ [n]) \<noteq> Some Dir"
  shows "shutil_move (os_path_join S n) (os_path_join D n) w =
           (Inr (), put (d @ [n]) (File x) (remove_node (s @ [n])
              (w\<lparr>audit := audit w @ [(os_path_join S n, os_path_join D n)]\<rparr>)))"
proof -
  have S: "S \<noteq> []" and D: "D \<noteq> []"
    using assms(1,3) by (auto dest: resolve_not_empty)
  show ?thesis
    using assms S D
    by (intro move_file)
       (simp_all add: resolve_join_dir must_dir_join_plain dot_last_join_plain)
qed

lemma run_files:
  assumes "resolve w S = Inr s" "lookup w s = Some Dir"
    and "resolve w D = Inr d" "lookup w d = Some Dir"
    and "s \<noteq> d" "\<forall>n\<in>set fl. plain n" "distinct fl"
    and "\<forall>n\<in>set fl. \<exists>x. lookup w (s @ [n]) = Some (File x)"
    and "\<forall>n\<in>set fl. lookup w (d @ [n]) \<noteq> Some Dir"
  shows "\<exists>w'. move_files fl S D w = (Inr (), w') \<and> cwd w' = cwd w
          \<and> audit w' = audit w @ map (\<lambda>n. (os_path_join S n, os_path_join D n)) fl
          \<and> (\<forall>q. lookup w' q =
                (if q \<in> (\<lambda>n. d @ [n]) ` set fl then lookup w (s @ [last q])
                 else if q \<in> (\<lambda>n. s @ [n]) ` set fl then None else lookup w q))"
  using assms
proof (induction fl arbitrary: w)
  case Nil
  then show ?case by simp
next
  case (Cons n ns)
  let ?src = "os_path_join S n" and ?dst = "os_path_join D n"
  obtain x where x: "lookup w (s @ [n]) = Some (File x)"
    using Cons.prems(8) by auto
  define w1 where "w1 = put (d @ [n]) (File x) (remove_node (s @ [n]) (w\<lparr>audit := audit w @ [(?src, ?dst)]\<rparr>))"
  have mv: "shutil_move ?src ?dst w = (Inr (), w1)"
    unfolding w1_def using Cons.prems x by (intro move_plain_file) simp_all
  have l1: "lookup w1 q = (if q = d @ [n] then Some (File x) else if q = s @ [n] then None else lookup w q)" for q
    by (simp add: w1_def)
  have c1: "cwd w1 = cwd w" and a1: "audit w1 = audit w @ [(?src, ?dst)]"
    by (simp_all add: w1_def)
  have dirs: "lookup w q = Some Dir \<Longrightarrow> lookup w1 q = Some Dir" for q
    using x Cons.prems(9) by (auto simp: l1)
  have "\<exists>w'. move_files ns S D w1 = (Inr (), w') \<and> cwd w' = cwd w1
          \<and> audit w' = audit w1 @ map (\<lambda>n. (os_path_join S n, os_path_join D n)) ns
          \<and> (\<forall>q. lookup w' q =
                (if q \<in> (\<lambda>n. d @ [n]) ` set ns then lookup w1 (s @ [last q])
                 else if q \<in> (\<lambda>n. s @ [n]) ` set ns then None else lookup w1 q))"
  proof (rule Cons.IH)
    show "resolve w1 S = Inr s" "resolve w1 D = Inr d"
      using resolve_mono [OF dirs c1] Cons.prems(1,3) by auto
    show "lookup w1 s = Some Dir" "lookup w1 d = Some Dir"
      using dirs Cons.prems(2,4) by auto
    show "s \<noteq> d" by fact
    show "\<forall>n\<in>set ns. plain n" "distinct ns"
      using Cons.prems(6,7) by auto
    show "\<forall>m\<in>set ns. \<exists>x. lookup w1 (s @ [m]) = Some (File x)"
      using Cons.prems(5,7,8) by (auto simp: l1)
    show "\<forall>m\<in>set ns. lookup w1 (d @ [m]) \<noteq> Some Dir"
      using Cons.prems(9) by (auto simp: l1)
  qed
  then obtain w' where run: "move_files ns S D w1 = (Inr (), w')" and c: "cwd w' = cwd w1"
    and a: "audit w' = audit w1 @ map (\<lambda>n. (os_path_join S n, os_path_join D n)) ns"
    and l: "\<And>q. lookup w' q =
                (if q \<in> (\<lambda>n. d @ [n]) ` set ns then lookup w1 (s @ [last q])
                 else if q \<in> (\<lambda>n. s @ [n]) ` set ns then None else lookup w1 q)"
    by blast
  have "lookup w' q =
          (if q \<in> (\<lambda>n. d @ [n]) ` set (n # ns) then lookup w (s @ [last q])
           else if q \<in> (\<lambda>n. s @ [n]) ` set (n # ns) then None else lookup w q)" for q
    using Cons.prems(5,7) x by (auto simp: l l1)
  then show ?case
    using mv run c a c1 a1 by (simp add: Let_def)
qed


lemma stat_join_dir:
  assumes "resolve w S = Inr s" "lookup w s = Some Dir" "plain n"
  shows "os_stat w (os_path_join S n) =
           (case lookup w (s @ [n]) of None \<Rightarrow> Inl FileNotFoundError | Some v \<Rightarrow> Inr v)"
  using assms must_dir_join_plain [OF assms(3) resolve_not_empty [OF assms(1)]]
  by (simp add: os_stat_def resolve_join_dir split: option.splits node.splits)

lemma isfile_iff: "os_path_isfile w p \<longleftrightarrow> (\<exists>x. os_stat w p = Inr (File x))"
  by (auto simp: os_path_isfile_def split: sum.splits node.splits)

lemma exists_iff: "os_path_exists w p \<longleftrightarrow> (\<exists>v. os_stat w p = Inr v)"
  by (auto simp: os_path_exists_def split: sum.splits)

lemma samefile_dirs:
  assumes "resolve w S = Inr s" "lookup w s = Some Dir"
    and "resolve w D = Inr d" "lookup w d = Some Dir"
  shows "samefile w S D \<longleftrightarrow> s = d"
  using assms by (simp add: samefile_def os_stat_def)

text \<open>
  The run on distinct plain names that are regular files of the source directory and do
  not name directories of the destination directory: what the run returns and the file
  system it leaves.
\<close>

lemma run_plain:
  assumes "os_path_isdir w S" "os_path_isdir w D" "\<not> samefile w S D"
    and "\<forall>n\<in>set fl. plain n" "distinct fl"
    and "\<forall>n\<in>set fl. os_path_isfile w (os_path_join S n)"
    and "\<forall>n\<in>set fl. \<not> os_path_isdir w (os_path_join D n)"
  obtains s d w' where
    "resolve w S = Inr s" "lookup w s = Some Dir" "resolve w D = Inr d" "lookup w d = Some Dir"
    "s \<noteq> d"
    "move_files fl S D w = (Inr (), w')" "cwd w' = cwd w"
    "audit w' = audit w @ map (\<lambda>n. (os_path_join S n, os_path_join D n)) fl"
    "\<And>q. lookup w' q =
        (if q \<in> (\<lambda>n. d @ [n]) ` set fl then lookup w (s @ [last q])
         else if q \<in> (\<lambda>n. s @ [n]) ` set fl then None else lookup w q)"
    "resolve w' S = Inr s" "lookup w' s = Some Dir" "resolve w' D = Inr d" "lookup w' d = Some Dir"
proof -
  obtain s d where s: "resolve w S = Inr s" "lookup w s = Some Dir"
    and d: "resolve w D = Inr d" "lookup w d = Some Dir"
    using assms(1,2) by (auto simp: isdir_iff)
  have sd: "s \<noteq> d"
    using assms(3) samefile_dirs [OF s d] by simp
  have files: "\<forall>n\<in>set fl. \<exists>x. lookup w (s @ [n]) = Some (File x)"
    using assms(4,6) by (auto simp: isfile_iff stat_join_dir [OF s] split: option.splits)
  have free: "\<forall>n\<in>set fl. lookup w (d @ [n]) \<noteq> Some Dir"
    using assms(4,7) by (auto simp: os_path_isdir_def stat_join_dir [OF d])
  obtain w' where run: "move_files fl S D w = (Inr (), w')" and c: "cwd w' = cwd w"
    and a: "audit w' = audit w @ map (\<lambda>n. (os_path_join S n, os_path_join D n)) fl"
    and l: "\<And>q. lookup w' q =
        (if q \<in> (\<lambda>n. d @ [n]) ` set fl then lookup w (s @ [last q])
         else if q \<in> (\<lambda>n. s @ [n]) ` set fl then None else lookup w q)"
    using run_files [OF s d sd assms(4,5) files free] by blast
  have dirs: "lookup w q = Some Dir \<Longrightarrow> lookup w' q = Some Dir" for q
    using files free by (auto simp: l)
  have "resolve w' S = Inr s" "resolve w' D = Inr d"
    using resolve_mono [OF dirs c] s d by auto
  moreover have "lookup w' s = Some Dir" "lookup w' d = Some Dir"
    using dirs s d by auto
  ultimately show ?thesis
    using that s d sd run c a l by blast
qed


subsection \<open>What every call preserves\<close>

text \<open>
  Only \<open>shutil_move\<close> writes the audit log, one event per call, and nothing changes the
  working directory.
\<close>

lemma audit_move_subtree [simp]: "audit (move_subtree sp dp w) = audit w"
  by (simp add: move_subtree_def)

lemma audit_copy_children [simp]: "audit (copy_children w0 sp dp w) = audit w"
  by (simp add: copy_children_def)

lemma audit_remove_children [simp]: "audit (remove_children sp w) = audit w"
  by (simp add: remove_children_def)

lemma cwd_move_subtree [simp]: "cwd (move_subtree sp dp w) = cwd w"
  by (simp add: move_subtree_def)

lemma cwd_copy_children [simp]: "cwd (copy_children w0 sp dp w) = cwd w"
  by (simp add: copy_children_def)

lemma cwd_remove_children [simp]: "cwd (remove_children sp w) = cwd w"
  by (simp add: remove_children_def)

lemma keeps_refl [simp]: "keeps w w"
  by (simp add: keeps_def)

lemma keeps_trans: "keeps w w1 \<Longrightarrow> keeps w1 w2 \<Longrightarrow> keeps w w2"
  by (simp add: keeps_def)

lemma keeps_mkdir: "os_mkdir p w = (r, w') \<Longrightarrow> keeps w w'"
  by (auto simp: os_mkdir_def keeps_def split: sum.splits option.splits)

lemma keeps_leaf: "makedirs_leaf name ok w = (r, w') \<Longrightarrow> keeps w w'"
  by (auto simp: makedirs_leaf_def split: prod.splits sum.splits if_splits dest: keeps_mkdir)

lemma keeps_makedirs: "os_makedirs name ok w = (r, w') \<Longrightarrow> keeps w w'"
proof (induction name ok w arbitrary: r w' rule: os_makedirs.induct)
  case (1 name ok w)
  let ?h = "fst (makedirs_split name)" and ?t = "snd (makedirs_split name)"
  show ?case
  proof (cases "?h \<noteq> [] \<and> ?t \<noteq> [] \<and> \<not> os_path_exists w ?h")
    case True
    obtain r1 w1 where r: "os_makedirs ?h ok w = (r1, w1)"
      by (cases "os_makedirs ?h ok w")
    have k: "keeps w w1"
      using "1.IH" True r by simp
    have "keeps w w2" if "makedirs_leaf name ok w1 = (r2, w2)" for r2 w2
      using keeps_trans [OF k keeps_leaf [OF that]] .
    then show ?thesis
      using "1.prems" True r k
      by (subst (asm) os_makedirs.simps) (auto split: sum.splits if_splits)
  next
    case False
    then show ?thesis
      using "1.prems" by (subst (asm) os_makedirs.simps) (auto dest: keeps_leaf)
  qed
qed

lemma keeps_rename: "os_rename src dst w = (r, w') \<Longrightarrow> keeps w w'"
  by (auto simp: os_rename_def keeps_def split: sum.splits option.splits node.splits if_splits)

lemma keeps_unlink: "os_unlink p w = (r, w') \<Longrightarrow> keeps w w'"
  by (auto simp: os_unlink_def keeps_def split: sum.splits option.splits node.splits if_splits)

lemma keeps_open_write: "open_write p x w = (r, w') \<Longrightarrow> keeps w w'"
  by (auto simp: open_write_def keeps_def split: sum.splits option.splits node.splits if_splits)

lemma keeps_copyfile: "copyfile src dst w = (r, w') \<Longrightarrow> keeps w w'"
  by (auto simp: copyfile_def split: sum.splits prod.splits if_splits dest: keeps_open_write)

lemma keeps_copy2: "copy2 src dst w = (r, w') \<Longrightarrow> keeps w w'"
  by (auto simp: copy2_def dest: keeps_copyfile)

lemma keeps_copytree: "copytree src dst w = (r, w') \<Longrightarrow> keeps w w'"
  by (auto simp: copytree_def keeps_def split: sum.splits node.splits prod.splits
      dest!: keeps_makedirs)

lemma keeps_rmtree: "rmtree src w = (r, w') \<Longrightarrow> keeps w w'"
  by (auto simp: rmtree_def keeps_def split: sum.splits node.splits if_splits)

lemma keeps_fallback: "move_fallback src dst real_dst w = (r, w') \<Longrightarrow> keeps w w'"
  by (auto simp: move_fallback_def split: prod.splits sum.splits if_splits
      dest!: keeps_copytree keeps_copy2 keeps_rmtree keeps_unlink intro: keeps_trans)

lemma keeps_move_to: "move_to src dst real_dst w = (r, w') \<Longrightarrow> keeps w w'"
  by (auto simp: move_to_def split: prod.splits sum.splits
      dest!: keeps_rename keeps_fallback intro: keeps_trans)

lemma keeps_shutil_move:
  "shutil_move src dst w = (r, w') \<Longrightarrow> keeps (w\<lparr>audit := audit w @ [(src, dst)]\<rparr>) w'"
  by (auto simp: shutil_move_def Let_def split: if_splits dest!: keeps_rename keeps_move_to)

lemma audit_shutil_move: "audit (snd (shutil_move src dst w)) = audit w @ [(src, dst)]"
  using keeps_shutil_move [of src dst w] by (cases "shutil_move src dst w") (simp add: keeps_def)

lemma cwd_shutil_move: "cwd (snd (shutil_move src dst w)) = cwd w"
  using keeps_shutil_move [of src dst w] by (cases "shutil_move src dst w") (simp add: keeps_def)

lemma audit_move_files:
  "\<exists>m\<le>length fl.
     audit (snd (move_files fl S D w)) =
       audit w @ map (\<lambda>n. (os_path_join S n, os_path_join D n)) (take m fl)
     \<and> (fst (move_files fl S D w) = Inr () \<longrightarrow> m = length fl)
     \<and> (fl \<noteq> [] \<longrightarrow> 0 < m)"
proof (induction fl arbitrary: w)
  case Nil
  then show ?case by simp
next
  case (Cons n ns)
  let ?src = "os_path_join S n" and ?dst = "os_path_join D n"
  obtain r w1 where mv: "shutil_move ?src ?dst w = (r, w1)"
    by (cases "shutil_move ?src ?dst w")
  have a1: "audit w1 = audit w @ [(?src, ?dst)]"
    using audit_shutil_move [of ?src ?dst w] mv by simp
  show ?case
  proof (cases r)
    case (Inl e)
    then have "audit (snd (move_files (n # ns) S D w)) =
        audit w @ map (\<lambda>n. (os_path_join S n, os_path_join D n)) (take 1 (n # ns))"
      using mv a1 by (simp add: Let_def)
    moreover have "fst (move_files (n # ns) S D w) \<noteq> Inr ()"
      using mv Inl by (simp add: Let_def)
    ultimately show ?thesis
      by (intro exI [of _ 1]) simp
  next
    case (Inr u)
    obtain m where m: "m \<le> length ns"
      "audit (snd (move_files ns S D w1)) =
         audit w1 @ map (\<lambda>n. (os_path_join S n, os_path_join D n)) (take m ns)"
      "fst (move_files ns S D w1) = Inr () \<longrightarrow> m = length ns"
      using Cons.IH [of w1] by blast
    have "move_files (n # ns) S D w = move_files ns S D w1"
      using mv Inr by (simp add: Let_def)
    then show ?thesis
      using m a1 by (intro exI [of _ "Suc m"]) simp
  qed
qed

subsection \<open>A move of a path to itself\<close>









subsection \<open>A destination folder that does not exist\<close>



subsection \<open>Moves of entries that are not directories\<close>

lemma file_change_refl [simp]: "file_change w w A"
  by (simp add: file_change_def)

lemma file_change_audit [simp]: "file_change w (w\<lparr>audit := a\<rparr>) A"
  by (simp add: file_change_def)

lemma file_change_mono: "file_change w w' A \<Longrightarrow> A \<subseteq> B \<Longrightarrow> file_change w w' B"
  by (auto simp: file_change_def)

lemma file_change_dirs:
  "file_change w w' A \<Longrightarrow> lookup w' q = Some Dir \<longleftrightarrow> lookup w q = Some Dir"
  by (metis file_change_def)

lemma file_change_trans:
  assumes "file_change w w1 A" "file_change w1 w2 B"
  shows "file_change w w2 (A \<union> B)"
  unfolding file_change_def
proof (intro conjI allI)
  show "cwd w2 = cwd w"
    using assms by (simp add: file_change_def)
  fix q
  have 1: "lookup w1 q = lookup w q \<or> (q \<in> A \<and> lookup w q \<noteq> Some Dir \<and> lookup w1 q \<noteq> Some Dir)"
    using assms(1) by (simp add: file_change_def)
  have 2: "lookup w2 q = lookup w1 q \<or> (q \<in> B \<and> lookup w1 q \<noteq> Some Dir \<and> lookup w2 q \<noteq> Some Dir)"
    using assms(2) by (simp add: file_change_def)
  show "lookup w2 q = lookup w q
        \<or> (q \<in> A \<union> B \<and> lookup w q \<noteq> Some Dir \<and> lookup w2 q \<noteq> Some Dir)"
    using 1 2 by auto
qed

lemma file_change_resolve:
  assumes "file_change w w' A"
  shows "resolve w' p = Inr c \<longleftrightarrow> resolve w p = Inr c"
proof
  assume "resolve w' p = Inr c"
  then show "resolve w p = Inr c"
    using assms file_change_dirs [OF assms]
    by (intro resolve_mono [of w' w]) (auto simp: file_change_def)
next
  assume "resolve w p = Inr c"
  then show "resolve w' p = Inr c"
    using assms file_change_dirs [OF assms]
    by (intro resolve_mono [of w w']) (auto simp: file_change_def)
qed

lemma file_change_isdir:
  assumes "file_change w w' A"
  shows "os_path_isdir w' p \<longleftrightarrow> os_path_isdir w p"
  by (simp add: isdir_iff file_change_resolve [OF assms] file_change_dirs [OF assms])

lemma rename_nondir:
  assumes "\<not> os_path_isdir w src" "os_rename src dst w = (r, w')"
  shows "file_change w w' {q. resolve w src = Inr q \<or> resolve w dst = Inr q}
         \<and> (\<forall>e. r = Inl e \<longrightarrow> w' = w)"
proof (cases "resolve w src")
  case (Inl e)
  then show ?thesis using assms(2) by (auto simp: os_rename_def)
next
  case sp: (Inr sp)
  show ?thesis
  proof (cases "lookup w sp")
    case None
    then show ?thesis using assms(2) sp by (auto simp: os_rename_def)
  next
    case (Some v)
    then obtain x where x: "lookup w sp = Some (File x)"
      using assms(1) sp by (cases v) (auto simp: isdir_iff)
    show ?thesis
    proof (cases "resolve w dst")
      case (Inl e)
      then show ?thesis using assms(2) sp x by (auto simp: os_rename_def)
    next
      case dp: (Inr dp)
      show ?thesis
        using assms(2) sp x dp
        by (auto simp: os_rename_def file_change_def split: if_splits)
    qed
  qed
qed

lemma copyfile_nondir:
  assumes "\<not> os_path_isdir w dst" "copyfile src dst w = (r, w')"
  shows "(\<exists>e. r = Inl e \<and> w' = w)
         \<or> (\<exists>sp dp x. r = Inr () \<and> resolve w src = Inr sp \<and> lookup w sp = Some (File x)
               \<and> \<not> must_dir src \<and> resolve w dst = Inr dp \<and> lookup w dp \<noteq> Some Dir
               \<and> sp \<noteq> dp \<and> w' = put dp (File x) w)"
proof (cases "samefile w src dst")
  case True
  then show ?thesis using assms(2) by (auto simp: copyfile_def)
next
  case nsame: False
  show ?thesis
  proof (cases "open_read w src")
    case (Inl e)
    then show ?thesis using assms(2) nsame by (auto simp: copyfile_def)
  next
    case (Inr x)
    then obtain sp where sp: "resolve w src = Inr sp" "lookup w sp = Some (File x)" "\<not> must_dir src"
      by (auto simp: open_read_def split: sum.splits option.splits node.splits if_splits)
    then have stat_src: "os_stat w src = Inr (File x)"
      by (simp add: os_stat_def)
    show ?thesis
    proof (cases "open_write dst x w")
      case (Pair r1 w1)
      show ?thesis
      proof (cases r1)
        case (Inl e)
        then have "w1 = w"
          using Pair
          by (auto simp: open_write_def split: sum.splits option.splits node.splits if_splits)
        then show ?thesis
          using assms(2) nsame Inr Pair Inl by (auto simp: copyfile_def split: if_splits)
      next
        case ok: (Inr u)
        then obtain dp where dp: "resolve w dst = Inr dp" "lookup w dp \<noteq> Some Dir"
          "\<not> must_dir dst" "w1 = put dp (File x) w"
          using Pair
          by (auto simp: open_write_def split: sum.splits option.splits node.splits if_splits)
        have "sp \<noteq> dp"
        proof
          assume "sp = dp"
          then have "os_stat w dst = Inr (File x)"
            using dp sp by (simp add: os_stat_def)
          then have "samefile w src dst"
            using stat_src sp dp \<open>sp = dp\<close> by (simp add: samefile_def)
          then show False using nsame by simp
        qed
        then show ?thesis
          using assms(2) nsame Inr Pair ok sp dp by (auto simp: copyfile_def)
      qed
    qed
  qed
qed

lemma fallback_nondir:
  assumes "\<not> os_path_isdir w src" "\<not> os_path_isdir w dst"
  shows "file_change w (snd (move_fallback src dst dst w))
           {q. resolve w src = Inr q \<or> resolve w dst = Inr q}"
proof (cases "copyfile src dst w")
  case (Pair r w1)
  have fb: "move_fallback src dst dst w =
      (case r of Inl e \<Rightarrow> (Inl e, w1) | Inr u \<Rightarrow> os_unlink src w1)"
    using assms Pair by (simp add: move_fallback_def copy2_def split: sum.splits)
  consider (fail) e where "r = Inl e" "w1 = w"
    | (ok) sp dp x where "r = Inr ()" "resolve w src = Inr sp" "lookup w sp = Some (File x)"
        "\<not> must_dir src" "resolve w dst = Inr dp" "lookup w dp \<noteq> Some Dir"
        "sp \<noteq> dp" "w1 = put dp (File x) w"
    using copyfile_nondir [OF assms(2) Pair] by blast
  then show ?thesis
  proof cases
    case fail
    then show ?thesis using fb by simp
  next
    case ok
    have "resolve w1 src = Inr sp"
      using ok by (intro resolve_mono [of w w1]) auto
    moreover have "lookup w1 sp = Some (File x)"
      using ok by simp
    ultimately have "os_unlink src w1 = (Inr (), remove_node sp w1)"
      using ok by (simp add: os_unlink_def)
    then show ?thesis
      using fb ok by (auto simp: file_change_def)
  qed
qed

lemma move_nondir:
  assumes "\<not> os_path_isdir w src" "\<not> os_path_isdir w dst"
  shows "file_change w (snd (shutil_move src dst w))
           {q. resolve w src = Inr q \<or> resolve w dst = Inr q}"
proof -
  let ?w = "w\<lparr>audit := audit w @ [(src, dst)]\<rparr>"
  let ?A = "{q. resolve w src = Inr q \<or> resolve w dst = Inr q}"
  have nd: "\<not> os_path_isdir ?w src" "\<not> os_path_isdir ?w dst"
    using assms by simp_all
  have A: "{q. resolve ?w src = Inr q \<or> resolve ?w dst = Inr q} = ?A"
    by simp
  have lift: "file_change w w' ?A" if "file_change ?w w' ?A" for w'
    using that by (simp add: file_change_def)
  obtain r w1 where rn: "os_rename src dst ?w = (r, w1)"
    by (cases "os_rename src dst ?w")
  have fc1: "file_change ?w w1 ?A" and same: "\<And>e. r = Inl e \<Longrightarrow> w1 = ?w"
    using rename_nondir [OF nd(1) rn] A by auto
  have "file_change ?w (snd (move_to src dst dst ?w)) ?A"
  proof (cases r)
    case (Inl e)
    then show ?thesis
      using rn same [OF Inl] fallback_nondir [OF nd] A by (simp add: move_to_def)
  next
    case (Inr u)
    then show ?thesis
      using rn fc1 by (simp add: move_to_def)
  qed
  then show ?thesis
    using nd lift by (simp add: shutil_move_def Let_def)
qed

lemma run_nondir:
  assumes "\<forall>n\<in>set fl. \<not> os_path_isdir w (os_path_join S n) \<and> \<not> os_path_isdir w (os_path_join D n)"
  shows "file_change w (snd (move_files fl S D w))
           {q. \<exists>n\<in>set fl. resolve w (os_path_join S n) = Inr q \<or> resolve w (os_path_join D n) = Inr q}"
  using assms
proof (induction fl arbitrary: w)
  case Nil
  then show ?case by simp
next
  case (Cons n ns)
  let ?src = "os_path_join S n" and ?dst = "os_path_join D n"
  let ?A = "{q. resolve w ?src = Inr q \<or> resolve w ?dst = Inr q}"
  let ?B = "{q. \<exists>m\<in>set ns. resolve w (os_path_join S m) = Inr q \<or> resolve w (os_path_join D m) = Inr q}"
  let ?C = "{q. \<exists>m\<in>set (n # ns). resolve w (os_path_join S m) = Inr q \<or> resolve w (os_path_join D m) = Inr q}"
  obtain r w1 where mv: "shutil_move ?src ?dst w = (r, w1)"
    by (cases "shutil_move ?src ?dst w")
  have fc1: "file_change w w1 ?A"
    using move_nondir [of w ?src ?dst] Cons.prems mv by simp
  show ?case
  proof (cases r)
    case (Inl e)
    then have "snd (move_files (n # ns) S D w) = w1"
      using mv by (simp add: Let_def)
    then show ?thesis
      using file_change_mono [OF fc1, of ?C] by auto
  next
    case (Inr u)
    have "\<forall>m\<in>set ns. \<not> os_path_isdir w1 (os_path_join S m) \<and> \<not> os_path_isdir w1 (os_path_join D m)"
      using Cons.prems by (simp add: file_change_isdir [OF fc1])
    then have "file_change w1 (snd (move_files ns S D w1))
        {q. \<exists>m\<in>set ns. resolve w1 (os_path_join S m) = Inr q \<or> resolve w1 (os_path_join D m) = Inr q}"
      by (rule Cons.IH)
    then have fc2: "file_change w1 (snd (move_files ns S D w1)) ?B"
      by (simp add: file_change_resolve [OF fc1])
    have "snd (move_files (n # ns) S D w) = snd (move_files ns S D w1)"
      using mv Inr by (simp add: Let_def)
    then show ?thesis
      using file_change_mono [OF file_change_trans [OF fc1 fc2], of ?C] by auto
  qed
qed

subsection \<open>\<open>os_makedirs\<close>\<close>

lemma new_dirs_only_refl [simp]: "new_dirs_only w w"
  by (simp add: new_dirs_only_def)









subsection \<open>Splitting a path into head and tail\<close>

lemma rstrip_sep_snoc [simp]: "rstrip_sep (p @ [sep]) = rstrip_sep p"
  by (simp add: rstrip_sep_def)

lemma rstrip_sep_fixed: "p \<noteq> [] \<Longrightarrow> last p \<noteq> sep \<Longrightarrow> rstrip_sep p = p"
  by (cases p rule: rev_cases) (auto simp: rstrip_sep_def)



lemma rstrip_sep_idem [simp]: "rstrip_sep (rstrip_sep p) = rstrip_sep p"
proof (cases "rstrip_sep p = []")
  case True
  then show ?thesis by (simp add: rstrip_sep_def)
next
  case False
  have "dropWhile (\<lambda>c. c = sep) (rev p) \<noteq> []"
    using False by (simp add: rstrip_sep_def)
  then have "hd (dropWhile (\<lambda>c. c = sep) (rev p)) \<noteq> sep"
    using hd_dropWhile [of "\<lambda>c. c = sep" "rev p"] by simp
  then have "last (rstrip_sep p) \<noteq> sep"
    using \<open>dropWhile (\<lambda>c. c = sep) (rev p) \<noteq> []\<close>
    by (simp add: rstrip_sep_def last_rev)
  then show ?thesis
    using False by (simp add: rstrip_sep_fixed)
qed





















lemma resolve_join_last:
  assumes "plain n" "resolve w (os_path_join X n) = Inr q"
  shows "q \<noteq> [] \<and> last q = n"
proof (cases "X = []")
  case True
  have "n \<noteq> []"
    using assms(1) by (simp add: plain_def)
  moreover have "hd n \<noteq> sep"
    using assms(1) by (metis hd_in_set plain_def)
  ultimately have "hd n \<noteq> sep" "n \<noteq> []"
    by simp_all
  then have j: "os_path_join X n = n" "\<not> isabs n"
    using True by (simp_all add: os_path_join_def isabs_def)
  have "splitsep n = [n]"
    using assms(1) by (simp add: splitsep_nosep plain_def)
  then show ?thesis
    using assms \<open>n \<noteq> []\<close> unfolding j
    by (auto simp: resolve_def step_plain split: option.splits node.splits)
next
  case False
  then show ?thesis
    using assms resolve_join_plain [OF assms(1) False, of w]
    by (auto split: sum.splits option.splits node.splits)
qed

subsection \<open>The file list of the entry point\<close>

text \<open>
  The entry point passes what \<^verbatim>\<open>os.listdir\<close> returns: names without repetition, and
  plain names when the file system has only such.  These are the file lists the claims
  below are proved for.
\<close>

lemma main_listing:
  "os_listdir listed_folder w = Inr file_list \<Longrightarrow>
     main w = main_with file_list source_folder destination_folder w"
  by (simp add: main_def)

lemma listdir_distinct: "os_listdir p w = Inr names \<Longrightarrow> distinct names"
  by (auto simp: os_listdir_def split: sum.splits option.splits node.splits)

lemma listdir_plain:
  assumes "plain_names w" "os_listdir p w = Inr names"
  shows "\<forall>n\<in>set names. plain n"
proof
  fix n
  assume "n \<in> set names"
  then obtain k v where k: "(k, v) \<in> set (fs w)" "k \<noteq> []" "n = last k"
    using assms(2) by (auto simp: os_listdir_def split: sum.splits option.splits node.splits)
  then have "list_all plain k"
    using assms(1) by (auto simp: plain_names_def list_all_iff)
  then show "plain n"
    using k(2,3) by (simp add: list_all_iff)
qed

section \<open>The claims\<close>

subsection \<open>C1: every listed file is moved\<close>

text \<open>
  Claim C1, as the code has it.  Let the source and the destination folder be two
  different existing directories, and let the file list consist of distinct plain names,
  each a regular file of the source folder and none the name of a directory in the
  destination folder.  Then \<open>move_files\<close> returns normally, and afterwards every listed
  file is in the destination folder with its content and no longer in the source folder.
  The claim as stated asks for less: that the listed files exist and the destination is
  writable.  That is not enough when a name is listed twice.
\<close>

theorem C1_all_files_moved:
  assumes "os_path_isdir w S" "os_path_isdir w D" "\<not> samefile w S D"
    and "\<forall>n\<in>set fl. plain n" "distinct fl"
    and "\<forall>n\<in>set fl. os_path_isfile w (os_path_join S n)"
    and "\<forall>n\<in>set fl. \<not> os_path_isdir w (os_path_join D n)"
  shows "fst (move_files fl S D w) = Inr ()
         \<and> (\<forall>n\<in>set fl. moved w (snd (move_files fl S D w)) S D n)"
proof -
  obtain s d w' where s: "resolve w S = Inr s" "lookup w s = Some Dir"
    and d: "resolve w D = Inr d" "lookup w d = Some Dir" and sd: "s \<noteq> d"
    and run: "move_files fl S D w = (Inr (), w')" and c: "cwd w' = cwd w"
    and a: "audit w' = audit w @ map (\<lambda>n. (os_path_join S n, os_path_join D n)) fl"
    and l: "\<And>q. lookup w' q =
        (if q \<in> (\<lambda>n. d @ [n]) ` set fl then lookup w (s @ [last q])
         else if q \<in> (\<lambda>n. s @ [n]) ` set fl then None else lookup w q)"
    and s': "resolve w' S = Inr s" "lookup w' s = Some Dir"
    and d': "resolve w' D = Inr d" "lookup w' d = Some Dir"
    by (rule run_plain [OF assms]) (rule that)
  have "moved w w' S D n" if n: "n \<in> set fl" for n
  proof -
    have p: "plain n" using assms(4) n by simp
    obtain x where x: "lookup w (s @ [n]) = Some (File x)"
      using assms(6) n p by (auto simp: isfile_iff stat_join_dir [OF s] split: option.splits)
    have "lookup w' (d @ [n]) = Some (File x)"
      using n x by (auto simp: l)
    moreover have "lookup w' (s @ [n]) = None"
      using n sd by (auto simp: l)
    ultimately show ?thesis
      using x p by (simp add: moved_def isfile_iff exists_iff stat_join_dir [OF s] stat_join_dir [OF s']
          stat_join_dir [OF d'])
  qed
  then show ?thesis
    using run by simp
qed

theorem C1_all_files_moved_witness:
  "os_path_isdir ex_two ''/src'' \<and> os_path_isdir ex_two ''/dst''
   \<and> \<not> samefile ex_two ''/src'' ''/dst''
   \<and> os_path_isfile ex_two (os_path_join ''/src'' ''a.txt'')
   \<and> os_path_isfile ex_two (os_path_join ''/src'' ''b.txt'')
   \<and> fst (move_files [''a.txt'', ''b.txt''] ''/src'' ''/dst'' ex_two) = Inr ()
   \<and> moved ex_two (snd (move_files [''a.txt'', ''b.txt''] ''/src'' ''/dst'' ex_two))
         ''/src'' ''/dst'' ''a.txt''
   \<and> moved ex_two (snd (move_files [''a.txt'', ''b.txt''] ''/src'' ''/dst'' ex_two))
         ''/src'' ''/dst'' ''b.txt''"
proof -
  have h1: "os_path_isdir ex_two ''/src''" by code_simp
  have h2: "os_path_isdir ex_two ''/dst''" by code_simp
  have h3: "\<not> samefile ex_two ''/src'' ''/dst''" by code_simp
  have h4: "\<forall>n\<in>set [''a.txt'', ''b.txt'']. plain n" by code_simp
  have h5: "distinct [''a.txt'', ''b.txt'']" by code_simp
  have h6: "\<forall>n\<in>set [''a.txt'', ''b.txt'']. os_path_isfile ex_two (os_path_join ''/src'' n)"
    by code_simp
  have h7: "\<forall>n\<in>set [''a.txt'', ''b.txt'']. \<not> os_path_isdir ex_two (os_path_join ''/dst'' n)"
    by code_simp
  show ?thesis
    using C1_all_files_moved [OF h1 h2 h3 h4 h5 h6 h7] h1 h2 h3 h6 by simp
qed

text \<open>
  The file list \<^verbatim>\<open>["a.txt", "a.txt"]\<close>: the listed file exists in the source folder and
  the destination folder exists, yet the call raises \<^verbatim>\<open>FileNotFoundError\<close>, because the
  first step moved the file away.
\<close>

theorem C1_duplicate_name_counterexample:
  "os_path_isfile ex_two (os_path_join ''/src'' ''a.txt'') \<and> os_path_isdir ex_two ''/dst''
   \<and> fst (move_files [''a.txt'', ''a.txt''] ''/src'' ''/dst'' ex_two) = Inl FileNotFoundError"
  by code_simp

text \<open>
  The other provisos of the theorem are needed as well.  With the same directory as
  source and destination folder the file stays where it is; a directory of the listed
  name in the destination folder takes the file in, so that the destination path is
  still that directory; and \<^verbatim>\<open>a.txt\<close> and \<^verbatim>\<open>./a.txt\<close>, which is not a plain name, are
  two names of one file.
\<close>

lemma same_folder_file_stays:
  "fst (move_files [''a.txt''] ''/src'' ''/src'' ex_two) = Inr ()
   \<and> os_path_isfile (snd (move_files [''a.txt''] ''/src'' ''/src'' ex_two))
         (os_path_join ''/src'' ''a.txt'')"
  by code_simp

lemma directory_at_destination_takes_file:
  "fst (move_files [''a.txt''] ''/src'' ''/dst'' ex_dir_at_dst) = Inr ()
   \<and> os_path_isdir (snd (move_files [''a.txt''] ''/src'' ''/dst'' ex_dir_at_dst))
         (os_path_join ''/dst'' ''a.txt'')"
  by code_simp

lemma two_names_of_one_file:
  "os_path_isfile ex_two (os_path_join ''/src'' ''a.txt'')
   \<and> os_path_isfile ex_two (os_path_join ''/src'' ''./a.txt'')
   \<and> fst (move_files [''a.txt'', ''./a.txt''] ''/src'' ''/dst'' ex_two) = Inl FileNotFoundError"
  by code_simp

subsection \<open>C2: a missing source file ends the run\<close>




subsection \<open>C3: the destination folder is created first\<close>




text \<open>
  The two provisos of the theorem are needed.  \<^verbatim>\<open>os.makedirs\<close> returns early for a
  path that ends in \<^verbatim>\<open>.\<close> once it has created the parents, here although the path
  leads to a regular file: the call returns normally and the folder is no directory.
  And a listed name that is a directory can be the destination folder itself: with the
  name \<^verbatim>\<open>../p/d\<close> the run creates \<^verbatim>\<open>/p/d\<close>, moves it to \<^verbatim>\<open>/p/p/d\<close> and returns
  normally.
\<close>

lemma makedirs_returns_early:
  "fst (os_makedirs ''/a/../f/.'' True ex_file_in_way) = Inr ()
   \<and> \<not> os_path_isdir (snd (os_makedirs ''/a/../f/.'' True ex_file_in_way)) ''/a/../f/.''"
  by code_simp

lemma destination_moved_away:
  "fst (main_with [''../p/d''] ''/s'' ''/p/d'' ex_traversal) = Inr ()
   \<and> \<not> os_path_exists (snd (main_with [''../p/d''] ''/s'' ''/p/d'' ex_traversal)) ''/p/d''
   \<and> os_path_isdir (snd (main_with [''../p/d''] ''/s'' ''/p/d'' ex_traversal)) ''/p/p/d''"
  by code_simp

subsection \<open>C4: what an aborted run leaves behind\<close>




subsection \<open>C5: the run is not idempotent\<close>

text \<open>
  Claim C5, as the code has it.  Let the source and the destination folder be two
  different existing directories, and let the file list be non-empty and consist of
  distinct plain names, each a regular file of the source folder and none the name of a
  directory in the destination folder.  Then a second run with the same arguments, on
  the file system the first run left, raises \<^verbatim>\<open>FileNotFoundError\<close>.  Likewise, when a
  name \<open>n\<close> of such a list is listed once more after it, the run raises
  \<^verbatim>\<open>FileNotFoundError\<close> at the second occurrence: the audit log shows one move for each
  entry of the list, then the second move for \<open>n\<close>, and nothing after it.  The claim as
  stated holds for every non-empty list of existing files; it fails when the two folders
  are the same directory, where a move is a rename of a file to itself.
\<close>

theorem C5_not_idempotent:
  assumes "os_path_isdir w S" "os_path_isdir w D" "\<not> samefile w S D"
    and "\<forall>n\<in>set fl. plain n" "distinct fl"
    and "\<forall>n\<in>set fl. os_path_isfile w (os_path_join S n)"
    and "\<forall>n\<in>set fl. \<not> os_path_isdir w (os_path_join D n)"
    and "n \<in> set fl"
  shows "fst (move_files fl S D (snd (move_files fl S D w))) = Inl FileNotFoundError
         \<and> fst (move_files (fl @ n # post) S D w) = Inl FileNotFoundError
         \<and> audit (snd (move_files (fl @ n # post) S D w)) =
             audit w @ map (\<lambda>m. (os_path_join S m, os_path_join D m)) (fl @ [n])"
proof -
  obtain s d w1 where s: "resolve w S = Inr s" "lookup w s = Some Dir"
    and d: "resolve w D = Inr d" "lookup w d = Some Dir" and sd: "s \<noteq> d"
    and run: "move_files fl S D w = (Inr (), w1)" and c: "cwd w1 = cwd w"
    and a: "audit w1 = audit w @ map (\<lambda>n. (os_path_join S n, os_path_join D n)) fl"
    and l: "\<And>q. lookup w1 q =
        (if q \<in> (\<lambda>n. d @ [n]) ` set fl then lookup w (s @ [last q])
         else if q \<in> (\<lambda>n. s @ [n]) ` set fl then None else lookup w q)"
    and s': "resolve w1 S = Inr s" "lookup w1 s = Some Dir"
    and d': "resolve w1 D = Inr d" "lookup w1 d = Some Dir"
    by (rule run_plain [OF assms(1-7)]) (rule that)
  have files: "\<forall>m\<in>set fl. \<exists>x. lookup w (s @ [m]) = Some (File x)"
    using assms(4,6) by (auto simp: isfile_iff stat_join_dir [OF s] split: option.splits)
  have gone: "shutil_move (os_path_join S m) (os_path_join D m) w1 =
      (Inl FileNotFoundError, w1\<lparr>audit := audit w1 @ [(os_path_join S m, os_path_join D m)]\<rparr>)"
    if m: "m \<in> set fl" for m
  proof -
    have p: "plain m" using assms(4) m by simp
    have "lookup w1 (s @ [m]) = None"
      using m sd by (auto simp: l)
    then have miss: "os_stat w1 (os_path_join S m) = Inl FileNotFoundError"
      using p by (simp add: stat_join_dir [OF s'])
    obtain x where "lookup w1 (d @ [m]) = Some (File x)"
      using m files by (auto simp: l)
    then have "\<not> os_path_isdir w1 (os_path_join D m)"
      using p by (simp add: os_path_isdir_def stat_join_dir [OF d'])
    then show ?thesis
      using move_missing [OF miss] by simp
  qed
  obtain m ms where fl: "fl = m # ms"
    using assms(8) by (cases fl) auto
  have "fst (move_files fl S D w1) = Inl FileNotFoundError"
    using gone [of m] by (simp add: fl Let_def)
  moreover have "move_files (fl @ n # post) S D w =
      (Inl FileNotFoundError, w1\<lparr>audit := audit w1 @ [(os_path_join S n, os_path_join D n)]\<rparr>)"
    using run gone [OF assms(8)] by (simp add: move_files_append Let_def)
  ultimately show ?thesis
    using run a by simp
qed

theorem C5_not_idempotent_witness:
  "os_path_isfile ex_two (os_path_join ''/src'' ''a.txt'')
   \<and> os_path_isfile ex_two (os_path_join ''/src'' ''b.txt'')
   \<and> fst (move_files [''a.txt'', ''b.txt''] ''/src'' ''/dst''
            (snd (move_files [''a.txt'', ''b.txt''] ''/src'' ''/dst'' ex_two)))
       = Inl FileNotFoundError
   \<and> fst (move_files [''a.txt'', ''b.txt'', ''a.txt'', ''b.txt''] ''/src'' ''/dst'' ex_two)
       = Inl FileNotFoundError
   \<and> audit (snd (move_files [''a.txt'', ''b.txt'', ''a.txt'', ''b.txt''] ''/src'' ''/dst'' ex_two))
       = [(''/src/a.txt'', ''/dst/a.txt''), (''/src/b.txt'', ''/dst/b.txt''),
          (''/src/a.txt'', ''/dst/a.txt'')]"
proof -
  have h1: "os_path_isdir ex_two ''/src''" by code_simp
  have h2: "os_path_isdir ex_two ''/dst''" by code_simp
  have h3: "\<not> samefile ex_two ''/src'' ''/dst''" by code_simp
  have h4: "\<forall>n\<in>set [''a.txt'', ''b.txt'']. plain n" by code_simp
  have h5: "distinct [''a.txt'', ''b.txt'']" by code_simp
  have h6: "\<forall>n\<in>set [''a.txt'', ''b.txt'']. os_path_isfile ex_two (os_path_join ''/src'' n)"
    by code_simp
  have h7: "\<forall>n\<in>set [''a.txt'', ''b.txt'']. \<not> os_path_isdir ex_two (os_path_join ''/dst'' n)"
    by code_simp
  have h8: "''a.txt'' \<in> set [''a.txt'', ''b.txt'']" by code_simp
  have j: "os_path_join ''/src'' ''a.txt'' = ''/src/a.txt''"
    "os_path_join ''/dst'' ''a.txt'' = ''/dst/a.txt''"
    "os_path_join ''/src'' ''b.txt'' = ''/src/b.txt''"
    "os_path_join ''/dst'' ''b.txt'' = ''/dst/b.txt''"
    "audit ex_two = []"
    by code_simp+
  show ?thesis
    using C5_not_idempotent [OF h1 h2 h3 h4 h5 h6 h7 h8, of "[''b.txt'']"] h6 by (simp add: j)
qed

text \<open>
  Source and destination folder are both \<^verbatim>\<open>/src\<close>: the file exists there, and the second
  run returns normally, as the first did.
\<close>

theorem C5_same_folder_counterexample:
  "os_path_isfile ex_two (os_path_join ''/src'' ''a.txt'')
   \<and> fst (move_files [''a.txt''] ''/src'' ''/src'' ex_two) = Inr ()
   \<and> fst (move_files [''a.txt''] ''/src'' ''/src''
            (snd (move_files [''a.txt''] ''/src'' ''/src'' ex_two))) = Inr ()"
  by code_simp

subsection \<open>C6: the moves follow the order of the list\<close>

text \<open>
  Claim C6.  Every call of \<^verbatim>\<open>shutil.move\<close> leaves one event in the audit log.  After
  \<open>move_files\<close> the log has grown by the events for the first \<open>m\<close> entries of the file
  list, in the order of the list, each with the source and destination path computed
  for that entry: all entries when the call returns normally, and at least the first
  when the list is not empty.  So the move for position \<open>i\<close> is attempted before any
  move for a position \<open>j > i\<close>, and none is attempted out of order or twice.  The moves
  are sequential: running a list \<open>xs @ ys\<close> is running \<open>xs\<close> and then, unless that
  raised, running \<open>ys\<close> on the file system \<open>xs\<close> left.
\<close>

theorem C6_moves_in_list_order:
  "(\<exists>m\<le>length fl.
      audit (snd (move_files fl S D w)) =
        audit w @ map (\<lambda>n. (os_path_join S n, os_path_join D n)) (take m fl)
      \<and> (fst (move_files fl S D w) = Inr () \<longrightarrow> m = length fl)
      \<and> (fl \<noteq> [] \<longrightarrow> 0 < m))
   \<and> move_files (xs @ ys) S D w =
       (case move_files xs S D w of
          (Inl e, w1) \<Rightarrow> (Inl e, w1)
        | (Inr u, w1) \<Rightarrow> move_files ys S D w1)"
proof
  show "\<exists>m\<le>length fl.
      audit (snd (move_files fl S D w)) =
        audit w @ map (\<lambda>n. (os_path_join S n, os_path_join D n)) (take m fl)
      \<and> (fst (move_files fl S D w) = Inr () \<longrightarrow> m = length fl)
      \<and> (fl \<noteq> [] \<longrightarrow> 0 < m)"
    by (rule audit_move_files)
next
  show "move_files (xs @ ys) S D w =
       (case move_files xs S D w of
          (Inl e, w1) \<Rightarrow> (Inl e, w1)
        | (Inr u, w1) \<Rightarrow> move_files ys S D w1)"
    by (rule move_files_append)
qed

theorem C6_moves_in_list_order_witness:
  "fst (move_files [''a.txt'', ''b.txt''] ''/src'' ''/dst'' ex_two) = Inr ()
   \<and> audit (snd (move_files [''a.txt'', ''b.txt''] ''/src'' ''/dst'' ex_two)) =
       [(''/src/a.txt'', ''/dst/a.txt''), (''/src/b.txt'', ''/dst/b.txt'')]"
proof -
  have ok: "fst (move_files [''a.txt'', ''b.txt''] ''/src'' ''/dst'' ex_two) = Inr ()"
    by code_simp
  have j: "os_path_join ''/src'' ''a.txt'' = ''/src/a.txt''"
    "os_path_join ''/dst'' ''a.txt'' = ''/dst/a.txt''"
    "os_path_join ''/src'' ''b.txt'' = ''/src/b.txt''"
    "os_path_join ''/dst'' ''b.txt'' = ''/dst/b.txt''"
    "audit ex_two = []"
    by code_simp+
  obtain m where
    "audit (snd (move_files [''a.txt'', ''b.txt''] ''/src'' ''/dst'' ex_two)) =
       audit ex_two @ map (\<lambda>n. (os_path_join ''/src'' n, os_path_join ''/dst'' n))
                        (take m [''a.txt'', ''b.txt''])"
    and "fst (move_files [''a.txt'', ''b.txt''] ''/src'' ''/dst'' ex_two) = Inr ()
         \<longrightarrow> m = length [''a.txt'', ''b.txt'']"
    using C6_moves_in_list_order [of "[''a.txt'', ''b.txt'']" "''/src''" "''/dst''" ex_two "[]" "[]"]
    by blast
  then show ?thesis
    using ok by (simp add: j)
qed

subsection \<open>C7: the empty file list\<close>




subsection \<open>C8: what a run leaves alone\<close>

text \<open>
  Claim C8, as the code has it.  Let the file list consist of plain names, none of them
  the name of a directory in the source folder or in the destination folder.  Then after
  the run, whether it returned or raised, the file system differs from the one before at
  most at the source and destination paths computed for the listed names; and a plain
  name that is not listed still names in the source folder what it named before.  The
  claim as stated, for every run, fails where a listed name is a directory of the
  destination folder: the file is then moved into that directory, to a path that is
  neither its source nor its destination path.
\<close>

theorem C8_frame:
  assumes "\<forall>n\<in>set fl. plain n"
    and "\<forall>n\<in>set fl.
           \<not> os_path_isdir w (os_path_join S n) \<and> \<not> os_path_isdir w (os_path_join D n)"
  shows "(\<forall>q. lookup (snd (move_files fl S D w)) q \<noteq> lookup w q \<longrightarrow>
              (\<exists>n\<in>set fl. resolve w (os_path_join S n) = Inr q
                          \<or> resolve w (os_path_join D n) = Inr q))
         \<and> (\<forall>m. plain m \<and> m \<notin> set fl \<and> os_path_isdir w S \<longrightarrow>
              os_stat (snd (move_files fl S D w)) (os_path_join S m) = os_stat w (os_path_join S m))"
proof -
  let ?w' = "snd (move_files fl S D w)"
  let ?A = "{q. \<exists>n\<in>set fl. resolve w (os_path_join S n) = Inr q
                            \<or> resolve w (os_path_join D n) = Inr q}"
  have fc: "file_change w ?w' ?A"
    by (rule run_nondir [OF assms(2)])
  then have 1: "\<forall>q. lookup ?w' q \<noteq> lookup w q \<longrightarrow> q \<in> ?A"
    by (auto simp: file_change_def)
  have 2: "os_stat ?w' (os_path_join S m) = os_stat w (os_path_join S m)"
    if m: "plain m" "m \<notin> set fl" "os_path_isdir w S" for m
  proof -
    obtain s where s: "resolve w S = Inr s" "lookup w s = Some Dir"
      using m(3) by (auto simp: isdir_iff)
    have r: "resolve w (os_path_join S m) = Inr (s @ [m])"
      by (rule resolve_join_dir [OF s m(1)])
    then have r': "resolve ?w' (os_path_join S m) = Inr (s @ [m])"
      by (simp add: file_change_resolve [OF fc])
    have "s @ [m] \<notin> ?A"
    proof
      assume "s @ [m] \<in> ?A"
      then obtain n where n: "n \<in> set fl"
        "resolve w (os_path_join S n) = Inr (s @ [m]) \<or> resolve w (os_path_join D n) = Inr (s @ [m])"
        by blast
      then have "last (s @ [m]) = n"
        using assms(1) resolve_join_last by blast
      then show False using n(1) m(2) by simp
    qed
    then have "lookup ?w' (s @ [m]) = lookup w (s @ [m])"
      using 1 by blast
    then show ?thesis
      by (simp add: os_stat_def r r')
  qed
  show ?thesis
    using 1 2 by blast
qed

theorem C8_frame_witness:
  "plain ''a.txt''
   \<and> \<not> os_path_isdir ex_two (os_path_join ''/src'' ''a.txt'')
   \<and> \<not> os_path_isdir ex_two (os_path_join ''/dst'' ''a.txt'')
   \<and> os_stat (snd (move_files [''a.txt''] ''/src'' ''/dst'' ex_two)) (os_path_join ''/src'' ''b.txt'')
       = Inr (File ''B'')
   \<and> lookup (snd (move_files [''a.txt''] ''/src'' ''/dst'' ex_two)) [''dst''] = Some Dir"
proof -
  have h1: "\<forall>n\<in>set [''a.txt'']. plain n" by code_simp
  have h2: "\<forall>n\<in>set [''a.txt''].
      \<not> os_path_isdir ex_two (os_path_join ''/src'' n) \<and> \<not> os_path_isdir ex_two (os_path_join ''/dst'' n)"
    by code_simp
  have b: "plain ''b.txt'' \<and> ''b.txt'' \<notin> set [''a.txt''] \<and> os_path_isdir ex_two ''/src''"
    by code_simp
  have sb: "os_stat ex_two (os_path_join ''/src'' ''b.txt'') = Inr (File ''B'')"
    by code_simp
  have d: "\<not> (\<exists>n\<in>set [''a.txt'']. resolve ex_two (os_path_join ''/src'' n) = Inr [''dst'']
                \<or> resolve ex_two (os_path_join ''/dst'' n) = Inr [''dst''])"
    by code_simp
  have ld: "lookup ex_two [''dst''] = Some Dir"
    by code_simp
  have "lookup (snd (move_files [''a.txt''] ''/src'' ''/dst'' ex_two)) [''dst''] = lookup ex_two [''dst'']"
    using C8_frame [OF h1 h2] d by blast
  moreover have "os_stat (snd (move_files [''a.txt''] ''/src'' ''/dst'' ex_two)) (os_path_join ''/src'' ''b.txt'')
      = os_stat ex_two (os_path_join ''/src'' ''b.txt'')"
    using C8_frame [OF h1 h2] b by blast
  ultimately show ?thesis
    using h1 h2 sb ld by simp
qed

text \<open>
  The destination folder has a directory \<^verbatim>\<open>a.txt\<close>: the file \<^verbatim>\<open>/src/a.txt\<close> is moved to
  \<^verbatim>\<open>/dst/a.txt/a.txt\<close>, which is created although it is neither the source path nor the
  destination path of the entry.
\<close>

theorem C8_moved_into_directory_counterexample:
  "resolve ex_dir_at_dst (os_path_join ''/src'' ''a.txt'') = Inr [''src'', ''a.txt'']
   \<and> resolve ex_dir_at_dst (os_path_join ''/dst'' ''a.txt'') = Inr [''dst'', ''a.txt'']
   \<and> lookup ex_dir_at_dst [''dst'', ''a.txt'', ''a.txt''] = None
   \<and> lookup (snd (move_files [''a.txt''] ''/src'' ''/dst'' ex_dir_at_dst))
        [''dst'', ''a.txt'', ''a.txt''] = Some (File ''A'')"
  by code_simp

text \<open>
  A listed name that is not plain can reach a file whose name is not listed: the list
  \<^verbatim>\<open>["./b.txt"]\<close> moves \<^verbatim>\<open>b.txt\<close>.
\<close>

lemma unlisted_name_moved:
  "os_path_isfile ex_two (os_path_join ''/src'' ''b.txt'')
   \<and> \<not> os_path_exists (snd (move_files [''./b.txt''] ''/src'' ''/dst'' ex_two))
         (os_path_join ''/src'' ''b.txt'')"
  by code_simp

subsection \<open>C9: an absolute entry\<close>



subsection \<open>C10: \<open>move_files\<close> creates no directory\<close>




text \<open>
  The empty string does not exist as a path either, but \<^verbatim>\<open>os.path.join\<close> of it and a
  name is the name: the file is moved to the working directory.
\<close>

lemma empty_destination_is_working_directory:
  "\<not> os_path_exists ex_no_dst [] \<and> fst (move_files [''a.txt''] ''/src'' [] ex_no_dst) = Inr ()
   \<and> lookup (snd (move_files [''a.txt''] ''/src'' [] ex_no_dst)) [''a.txt''] = Some (File ''A'')"
  by code_simp

end
